theory Spec2Isabelle
  imports Complex_Main "HOL-Library.Word" "HOL-Library.Monad_Syntax"
begin

section \<open>Numbers, faults and vectors\<close>

text \<open>
  The C++ code computes with \<open>Double_t\<close> and \<open>mpreal\<close>. The model computes with the
  reals: rounding is not modelled. Where the C++ arithmetic leaves the finite numbers
  (a division by zero gives an infinity or a NaN) and the result of the function holds
  such a value, the model returns \<open>Inl NonFinite\<close>. Reading a \<open>std::vector\<close> past its
  end is undefined behaviour in C++; the model returns \<open>Inl IndexOutOfRange\<close>.
\<close>

datatype fault = NonFinite | IndexOutOfRange | DegenerateAxis

text \<open>
  ROOT's \<open>TVector3\<close>: three coordinates, read and written through \<open>operator[]\<close> with
  the indices 0, 1 and 2, compared with \<open>==\<close> coordinate by coordinate.
\<close>

datatype TVector3 = TVector3 real real real

fun at3 :: "TVector3 \<Rightarrow> int \<Rightarrow> real" where
  "at3 (TVector3 x y z) i = (if i = 0 then x else if i = 1 then y else z)"

fun upd3 :: "TVector3 \<Rightarrow> int \<Rightarrow> real \<Rightarrow> TVector3" where
  "upd3 (TVector3 x y z) i v =
     (if i = 0 then TVector3 v y z else if i = 1 then TVector3 x v z else TVector3 x y v)"

fun vadd :: "TVector3 \<Rightarrow> TVector3 \<Rightarrow> TVector3" where
  "vadd (TVector3 x y z) (TVector3 x' y' z') = TVector3 (x + x') (y + y') (z + z')"

fun vsub :: "TVector3 \<Rightarrow> TVector3 \<Rightarrow> TVector3" where
  "vsub (TVector3 x y z) (TVector3 x' y' z') = TVector3 (x - x') (y - y') (z - z')"

fun vscale :: "TVector3 \<Rightarrow> real \<Rightarrow> TVector3" where
  "vscale (TVector3 x y z) c = TVector3 (x * c) (y * c) (z * c)"

fun Dot :: "TVector3 \<Rightarrow> TVector3 \<Rightarrow> real" where
  "Dot (TVector3 x y z) (TVector3 x' y' z') = x * x' + y * y' + z * z'"

definition Mag2 :: "TVector3 \<Rightarrow> real" where
  "Mag2 v = Dot v v"

text \<open>
  \<open>v.Perp2(p)\<close> and \<open>v.Perp(p)\<close>: the squared length, and the length, of the part of
  \<open>v\<close> transverse to \<open>p\<close>.
\<close>

definition Perp2 :: "TVector3 \<Rightarrow> TVector3 \<Rightarrow> real" where
  "Perp2 v p =
     (let tot = Mag2 p;
          ss = Dot v p;
          per = Mag2 v;
          per = (if tot > 0 then per - ss * ss / tot else per)
      in if per < 0 then 0 else per)"

definition Perp :: "TVector3 \<Rightarrow> TVector3 \<Rightarrow> real" where
  "Perp v p = sqrt (Perp2 v p)"

text \<open>
  The magnetic field collaborator \<open>fAxionMagneticField->GetMagneticField(x, y, z)\<close>,
  a function of the point.
\<close>

type_synonym field_map = "real \<Rightarrow> real \<Rightarrow> real \<Rightarrow> TVector3"

definition GetMagneticField :: "field_map \<Rightarrow> TVector3 \<Rightarrow> TVector3" where
  "GetMagneticField B pos = B (at3 pos 0) (at3 pos 1) (at3 pos 2)"

text \<open>The constants of namespace \<open>REST_Physics\<close> that the conversion formulas use.\<close>

record REST_Physics =
  lightSpeed :: real
  naturalElectron :: real
  PhMeterIneV :: real

text \<open>
  The theorems below hold for every value of these constants. Closed instances use the
  values that REST gives them: the speed of light in m/s, the electron charge in natural
  units and one metre in 1/eV.
\<close>

definition REST_Physics_values :: REST_Physics where
  "REST_Physics_values =
     \<lparr>lightSpeed = 299792458,
      naturalElectron = 302822120214353 / 10 ^ 15,
      PhMeterIneV = 5067731236453719 / 10 ^ 9\<rparr>"

text \<open>The buffer gas (medium) collaborator: two functions of the energy in keV.\<close>

record TRestAxionBufferGas =
  GetPhotonMass :: "real \<Rightarrow> real"
  GetPhotonAbsorptionLength :: "real \<Rightarrow> real"

section \<open>TRestAxionPhotonConversion\<close>

definition BL :: "REST_Physics \<Rightarrow> real \<Rightarrow> real \<Rightarrow> real" where
  "BL k Bmag Lcoh =
     (let lengthInMeters = Lcoh / 1000;
          tm = lightSpeed k / naturalElectron k * (1 / 10 ^ 9);
          sol = lengthInMeters * Bmag * tm
      in sol * (1 / 10 ^ 10))"

definition BLHalfSquared :: "REST_Physics \<Rightarrow> real \<Rightarrow> real \<Rightarrow> real" where
  "BLHalfSquared k Bmag Lcoh =
     (let lengthInMeters = Lcoh / 1000;
          tm = lightSpeed k / naturalElectron k * (1 / 10 ^ 9);
          sol = lengthInMeters * Bmag * tm / 2
      in sol * sol * (1 / 10 ^ 20))"

text \<open>
  \<open>if (fBufferGas) photonMass = fBufferGas->GetPhotonMass(Ea)\<close>, with the initial value 0
  kept when no buffer gas is assigned; the same for the absorption.
\<close>

definition photonMass_of :: "TRestAxionBufferGas option \<Rightarrow> real \<Rightarrow> real" where
  "photonMass_of fBufferGas Ea =
     (case fBufferGas of None \<Rightarrow> 0 | Some g \<Rightarrow> GetPhotonMass g Ea)"

definition Gamma_of :: "TRestAxionBufferGas option \<Rightarrow> real \<Rightarrow> real" where
  "Gamma_of fBufferGas Ea =
     (case fBufferGas of None \<Rightarrow> 0 | Some g \<Rightarrow> GetPhotonAbsorptionLength g Ea)"

text \<open>
  The scalar overload \<open>GammaTransmissionProbability(Ea, Bmag, ma, Lcoh)\<close>.
  \<open>Ea = 0\<close> makes \<open>q\<close> infinite or NaN and the cosine NaN; \<open>MFactor = 0\<close> makes
  \<open>1.0 / MFactor\<close> infinite, and the product with the vanishing bracket NaN.
\<close>

definition GammaTransmissionProbability ::
  "REST_Physics \<Rightarrow> TRestAxionBufferGas option \<Rightarrow> real \<Rightarrow> real \<Rightarrow> real \<Rightarrow> real \<Rightarrow> fault + real" where
  "GammaTransmissionProbability k fBufferGas Ea Bmag ma Lcoh =
     (let cohLength = Lcoh / 1000;
          photonMass = photonMass_of fBufferGas Ea
      in if ma = 0 \<and> photonMass = 0 then Inr (BLHalfSquared k Bmag Lcoh)
         else if Ea = 0 then Inl NonFinite
         else
           let q = (ma * ma - photonMass * photonMass) / 2 / Ea / 1000;
               l = cohLength * PhMeterIneV k;
               phi = q * l;
               Gamma = Gamma_of fBufferGas Ea;
               GammaL = Gamma * cohLength * 100;
               MFactor = phi * phi + GammaL * GammaL / 4
           in if MFactor = 0 then Inl NonFinite
              else Inr (1 / MFactor * BLHalfSquared k Bmag Lcoh *
                        (1 + exp (- GammaL) - 2 * exp (- GammaL / 2) * cos phi)))"

text \<open>
  ROOT's one-dimensional histogram \<open>TH1F\<close> with \<open>fNbins\<close> bins of equal width on
  \<open>[fXmin, fXmax)\<close>: cell 0 collects the underflow, the cells \<open>1 .. fNbins\<close> are the bins,
  cell \<open>fNbins + 1\<close> collects the overflow. The constructor turns a bin count \<open>\<le> 0\<close>
  into 1. \<open>FindBin\<close> is \<open>TAxis::FindBin\<close>, \<open>Fill\<close> adds a weight to the cell of a
  value, \<open>Integral\<close> sums the cells from \<open>binx1\<close> to \<open>binx2\<close> after clamping them as
  \<open>TH1::Integral\<close> does. The cells hold reals here (\<open>Float_t\<close> in ROOT).
\<close>

record TH1F =
  fNbins :: int
  fXmin :: real
  fXmax :: real
  fArray :: "real list"

definition TH1F_new :: "int \<Rightarrow> real \<Rightarrow> real \<Rightarrow> TH1F" where
  "TH1F_new nbins xlow xup =
     (let nbins = (if nbins \<le> 0 then 1 else nbins)
      in \<lparr>fNbins = nbins, fXmin = xlow, fXmax = xup, fArray = replicate (nat (nbins + 2)) 0\<rparr>)"

definition FindBin :: "TH1F \<Rightarrow> real \<Rightarrow> int" where
  "FindBin h x =
     (if x < fXmin h then 0
      else if \<not> x < fXmax h then fNbins h + 1
      else 1 + \<lfloor>real_of_int (fNbins h) * (x - fXmin h) / (fXmax h - fXmin h)\<rfloor>)"

definition Fill :: "TH1F \<Rightarrow> real \<Rightarrow> real \<Rightarrow> TH1F" where
  "Fill h x w =
     (let bin = nat (FindBin h x)
      in h\<lparr>fArray := (fArray h)[bin := fArray h ! bin + w]\<rparr>)"

definition Integral :: "TH1F \<Rightarrow> int \<Rightarrow> int \<Rightarrow> real" where
  "Integral h binx1 binx2 =
     (let nx = fNbins h + 2;
          binx1 = (if binx1 < 0 then 0 else binx1);
          binx2 = (if binx2 \<ge> nx \<or> binx2 < binx1 then nx - 1 else binx2)
      in sum_list (map (\<lambda>bin. fArray h ! bin) [nat binx1 ..< nat binx2 + 1]))"

text \<open>
  The overload \<open>GammaTransmissionProbability(Ea, TVectorD B, ma, Lcoh)\<close>.

  \<^item> With one sample (\<open>N = 0\<close>) the quotient \<open>i / N\<close> is \<open>0 / 0\<close>; with \<open>Ea = 0\<close> the
    value \<open>q\<close> is infinite or NaN and the argument of the cosine at \<open>i = 0\<close> is NaN. Both
    make the samples, and with them the result, NaN.
  \<^item> With \<open>Lcoh < 0\<close> the histogram is built with \<open>xlow > xup\<close>; ROOT then buffers the
    entries and chooses the axis itself. The model does not follow that and returns
    \<open>Inl DegenerateAxis\<close>.
  \<^item> With \<open>Lcoh = 0\<close> both \<open>FindBin(xmin)\<close> and \<open>FindBin(xmax)\<close> are the same call, so
    that the integral is multiplied by \<open>xmax - xmin = 0\<close> and divided by
    \<open>bmax - bmin = 0\<close>: the result is NaN.
  \<^item> \<open>inte * Conjugate(inte)\<close>, converted to \<open>Double_t\<close>, is the squared modulus
    \<open>integralx\<^sup>2 + integraly\<^sup>2\<close>.
\<close>

definition GammaTransmissionProbability_vec ::
  "REST_Physics \<Rightarrow> TRestAxionBufferGas option \<Rightarrow> real \<Rightarrow> real list \<Rightarrow> real \<Rightarrow> real \<Rightarrow> fault + real" where
  "GammaTransmissionProbability_vec k fBufferGas Ea B ma Lcoh =
     (let cohLength = Lcoh / 1000;
          photonMass = photonMass_of fBufferGas Ea;
          q = (ma * ma - photonMass * photonMass) / 2 / Ea / 1000;
          Gamma = Gamma_of fBufferGas Ea;
          GammaL = Gamma * cohLength * 100;
          tm = lightSpeed k / naturalElectron k * (1 / 10 ^ 9);
          Factor = tm / 2;
          Factor = Factor * Factor * (1 / 10 ^ 20);
          xmin = 0;
          xmax = cohLength;
          size = int (length B);
          N = size - 1;
          Bx = (\<lambda>i. B ! i * exp ((GammaL / 2) * (real i / real_of_int N - 1)) *
                       cos (- cohLength * PhMeterIneV k * (real i / real_of_int N) * q));
          By = (\<lambda>i. B ! i * exp ((GammaL / 2) * (real i / real_of_int N - 1)) *
                       sin (- cohLength * PhMeterIneV k * (real i / real_of_int N) * q));
          ind = (\<lambda>i. cohLength * (real i / real_of_int N))
      in if 0 \<le> N \<and> (N = 0 \<or> Ea = 0) then Inl NonFinite
         else if xmax < xmin then Inl DegenerateAxis
         else
           let hx = fold (\<lambda>i h. Fill h (ind i) (Bx i)) [0 ..< nat (N + 1)] (TH1F_new (N + 1) xmin xmax);
               hy = fold (\<lambda>i h. Fill h (ind i) (By i)) [0 ..< nat (N + 1)] (TH1F_new (N + 1) xmin xmax);
               bmin = FindBin hx xmin;
               bmax = FindBin hx xmax
           in if bmax = bmin then Inl NonFinite
              else
                let integralx = Integral hx bmin bmax;
                    integralx = integralx * (xmax - xmin) / real_of_int (bmax - bmin);
                    integraly = Integral hy bmin bmax;
                    integraly = integraly * (xmax - xmin) / real_of_int (bmax - bmin);
                    sol = integralx * integralx + integraly * integraly
                in Inr (Factor * sol))"

section \<open>TRestAxionFieldPropagationProcess: the boundary trace\<close>

text \<open>
  The loops of \<open>FindOneVolume\<close> have no bound on their number of rounds in the source.
  Each is a \<open>partial_function\<close> in the option monad: \<open>None\<close> is the loop that never
  ends, and nothing else is \<open>None\<close>.

  The first two blocks of \<open>FindOneVolume\<close> (direction along x, direction along z) are
  the same text up to the index of the coordinate, 0 in the first and 2 in the second.
  The model writes the block once, with that index as the parameter \<open>a\<close>.
\<close>

text \<open>The scan for a non-zero field, inside the domain \<open>[-40000, 40000]\<close>.\<close>

partial_function (option) advance_axis ::
  "field_map \<Rightarrow> int \<Rightarrow> TVector3 \<Rightarrow> real \<Rightarrow> TVector3 \<Rightarrow> TVector3 option" where
  "advance_axis B a dir dr pos =
     (if GetMagneticField B pos = TVector3 0 0 0 \<and> at3 pos a \<ge> - 40000 \<and> at3 pos a \<le> 40000
      then advance_axis B a dir dr (upd3 pos a (at3 pos a + at3 dir a * dr))
      else Some pos)"

text \<open>
  The loop \<open>while (dr > minStep)\<close>. It ends the function from inside with the pair
  \<open>[pos, TVector3(0,0,0)]\<close> (\<open>Inl\<close>), or it is left with the step and the position it
  reached (\<open>Inr\<close>).
\<close>

partial_function (option) bisect_axis ::
  "field_map \<Rightarrow> int \<Rightarrow> TVector3 \<Rightarrow> real \<Rightarrow> real \<Rightarrow> TVector3 \<Rightarrow>
     (TVector3 list + real \<times> TVector3) option" where
  "bisect_axis B a dir minStep dr pos =
     (if dr > minStep then
        do {
          pos \<leftarrow> advance_axis B a dir dr pos;
          if at3 pos a < - 40000 \<or> at3 pos a > 40000
          then Some (Inl [pos, TVector3 0 0 0])
          else bisect_axis B a dir minStep (dr / 2) (upd3 pos a (at3 pos a - at3 dir a * dr))
        }
      else Some (Inr (dr, pos)))"

text \<open>The scan for the exit: \<open>while (GetMagneticField(pos) != TVector3(0,0,0))\<close>.\<close>

partial_function (option) exit_axis ::
  "field_map \<Rightarrow> int \<Rightarrow> TVector3 \<Rightarrow> real \<Rightarrow> TVector3 \<Rightarrow> TVector3 option" where
  "exit_axis B a dir dr pos =
     (if GetMagneticField B pos \<noteq> TVector3 0 0 0
      then exit_axis B a dir dr (upd3 pos a (at3 pos a + at3 dir a * dr))
      else Some pos)"

definition FindOneVolume_axis ::
  "field_map \<Rightarrow> int \<Rightarrow> TVector3 \<Rightarrow> TVector3 \<Rightarrow> real \<Rightarrow> TVector3 list option" where
  "FindOneVolume_axis B a pos dir minStep =
     do {
       r \<leftarrow> bisect_axis B a dir minStep 5 (upd3 pos a (at3 pos a + at3 dir a * minStep / 2));
       case r of
         Inl boundary \<Rightarrow> Some boundary
       | Inr (dr, pos) \<Rightarrow>
           do {
             let pos = upd3 pos a (at3 pos a + at3 dir a * dr * 2);
             let boundaryIn = pos;
             boundaryOut \<leftarrow> exit_axis B a dir dr pos;
             Some [boundaryIn, boundaryOut]
           }
     }"

text \<open>
  The third block steps along y and derives x and z from the line:
  \<open>t = (y - pos[1]) / dir[1]; pos[1] = y; pos[0] = pos[0] + t*dir[0]; pos[2] = pos[2] + t*dir[2]\<close>.
  With \<open>dir[1] = 0\<close> the quotient is infinite or NaN: the model stops with
  \<open>Inl NonFinite\<close> there.
\<close>

definition move_y :: "TVector3 \<Rightarrow> TVector3 \<Rightarrow> real \<Rightarrow> fault + TVector3" where
  "move_y dir pos y =
     (if at3 dir 1 = 0 then Inl NonFinite
      else let t = (y - at3 pos 1) / at3 dir 1
           in Inr (TVector3 (at3 pos 0 + t * at3 dir 0) y (at3 pos 2 + t * at3 dir 2)))"

partial_function (option) advance_general ::
  "field_map \<Rightarrow> TVector3 \<Rightarrow> real \<Rightarrow> TVector3 \<Rightarrow> (fault + TVector3) option" where
  "advance_general B dir dr pos =
     (if GetMagneticField B pos = TVector3 0 0 0 \<and> at3 pos 1 > 0
      then (case move_y dir pos (at3 pos 1 - dr) of
              Inl e \<Rightarrow> Some (Inl e)
            | Inr pos' \<Rightarrow> advance_general B dir dr pos')
      else Some (Inr pos))"

partial_function (option) bisect_general ::
  "field_map \<Rightarrow> TVector3 \<Rightarrow> real \<Rightarrow> real \<Rightarrow> TVector3 \<Rightarrow>
     (fault + TVector3 list + real \<times> TVector3) option" where
  "bisect_general B dir minStep dr pos =
     (if dr > minStep then
        do {
          r \<leftarrow> advance_general B dir dr pos;
          case r of
            Inl e \<Rightarrow> Some (Inl e)
          | Inr pos \<Rightarrow>
              if at3 pos 1 \<le> 0 then Some (Inr (Inl [pos, TVector3 0 0 0]))
              else (case move_y dir pos (at3 pos 1 + dr) of
                      Inl e \<Rightarrow> Some (Inl e)
                    | Inr pos' \<Rightarrow> bisect_general B dir minStep (dr / 2) pos')
        }
      else Some (Inr (Inr (dr, pos))))"

partial_function (option) exit_general ::
  "field_map \<Rightarrow> TVector3 \<Rightarrow> real \<Rightarrow> TVector3 \<Rightarrow> (fault + TVector3) option" where
  "exit_general B dir dr pos =
     (if GetMagneticField B pos \<noteq> TVector3 0 0 0
      then (case move_y dir pos (at3 pos 1 - dr) of
              Inl e \<Rightarrow> Some (Inl e)
            | Inr pos' \<Rightarrow> exit_general B dir dr pos')
      else Some (Inr pos))"

definition FindOneVolume_general ::
  "field_map \<Rightarrow> TVector3 \<Rightarrow> TVector3 \<Rightarrow> real \<Rightarrow> (fault + TVector3 list) option" where
  "FindOneVolume_general B pos dir minStep =
     do {
       r \<leftarrow> bisect_general B dir minStep 5 (upd3 pos 1 (at3 pos 1 - minStep / 2));
       case r of
         Inl e \<Rightarrow> Some (Inl e)
       | Inr (Inl boundary) \<Rightarrow> Some (Inr boundary)
       | Inr (Inr (dr, pos)) \<Rightarrow>
           (case move_y dir pos (at3 pos 1 - dr * 2) of
              Inl e \<Rightarrow> Some (Inl e)
            | Inr boundaryIn \<Rightarrow>
                do {
                  r' \<leftarrow> exit_general B dir dr boundaryIn;
                  case r' of
                    Inl e \<Rightarrow> Some (Inl e)
                  | Inr boundaryOut \<Rightarrow> Some (Inr [boundaryIn, boundaryOut])
                })
     }"

text \<open>
  \<open>FindOneVolume\<close> opens with \<open>if (dir[1] > 0) error << " y is ascendant, \<dots>"\<close>: a line
  on the error stream for a direction that ascends in y, after which the function goes
  on as for every other direction. This is the only place where the process looks at the
  direction before it uses it. The stream does not act on the value returned, so the
  model keeps the line beside \<open>FindOneVolume\<close>: \<open>None\<close> is no line.
\<close>

definition FindOneVolume_error :: "TVector3 \<Rightarrow> string option" where
  "FindOneVolume_error dir =
     (if at3 dir 1 > 0 then Some '' y is ascendant, and you entered the direction vector : ''
      else None)"

definition FindOneVolume ::
  "field_map \<Rightarrow> TVector3 \<Rightarrow> TVector3 \<Rightarrow> real \<Rightarrow> (fault + TVector3 list) option" where
  "FindOneVolume B pos dir minStep =
     (if at3 dir 1 = 0 \<and> at3 dir 2 = 0 then map_option Inr (FindOneVolume_axis B 0 pos dir minStep)
      else if at3 dir 0 = 0 \<and> at3 dir 1 = 0 then map_option Inr (FindOneVolume_axis B 2 pos dir minStep)
      else FindOneVolume_general B pos dir minStep)"

text \<open>
  \<open>FindFieldBoundaries\<close> tests the first point of each pair that \<open>FindOneVolume\<close>
  returns: outside \<open>[-40000, 40000]\<close> along x or z, or \<open>y \<le> 0\<close> in the third block.
\<close>

definition outside_domain :: "TVector3 \<Rightarrow> TVector3 \<Rightarrow> bool" where
  "outside_domain direction b0 =
     (if at3 direction 1 = 0 \<and> at3 direction 2 = 0 then at3 b0 0 < - 40000 \<or> at3 b0 0 > 40000
      else if at3 direction 0 = 0 \<and> at3 direction 1 = 0 then at3 b0 2 < - 40000 \<or> at3 b0 2 > 40000
      else at3 b0 1 \<le> 0)"

text \<open>
  The loop \<open>while (bInt[0] inside the domain)\<close> of \<open>FindFieldBoundaries\<close>, the same in
  its three blocks up to the test. \<open>bInt\<close> holds two points whenever it comes from
  \<open>FindOneVolume\<close>. A loop that appends a pair in every round and never ends is \<open>None\<close>
  as well; the C++ program ends it when the memory for the pairs is used up.
\<close>

partial_function (option) collect_volumes ::
  "field_map \<Rightarrow> TVector3 \<Rightarrow> real \<Rightarrow> TVector3 list list \<Rightarrow> TVector3 list \<Rightarrow>
     (fault + TVector3 list list) option" where
  "collect_volumes B direction minStep boundaryCollection bInt =
     (case bInt of
        [b0, b1] \<Rightarrow>
          if \<not> outside_domain direction b0 then
            do {
              r \<leftarrow> FindOneVolume B b1 direction minStep;
              case r of
                Inl e \<Rightarrow> Some (Inl e)
              | Inr bInt' \<Rightarrow>
                  collect_volumes B direction minStep (boundaryCollection @ [[b0, b1]]) bInt'
            }
          else Some (Inr boundaryCollection)
      | _ \<Rightarrow> Some (Inl IndexOutOfRange))"

text \<open>
  What the three blocks of \<open>FindFieldBoundaries\<close> do once the start point is set: the
  first call of \<open>FindOneVolume\<close>, the test of its first point, and the loop.
\<close>

definition FindFieldBoundaries_from ::
  "field_map \<Rightarrow> TVector3 \<Rightarrow> TVector3 \<Rightarrow> real \<Rightarrow> (fault + TVector3 list list) option" where
  "FindFieldBoundaries_from B posInitial direction minStep =
     do {
       r \<leftarrow> FindOneVolume B posInitial direction minStep;
       case r of
         Inl e \<Rightarrow> Some (Inl e)
       | Inr bInt \<Rightarrow> collect_volumes B direction minStep [] bInt
     }"

text \<open>
  The third block of \<open>FindFieldBoundaries\<close> when \<open>direction[1] = 0\<close>; then
  \<open>direction[0] \<noteq> 0\<close> and \<open>direction[2] \<noteq> 0\<close>, since the first two blocks did not apply.
  \<open>t = (10000 - posInitial[1]) / direction[1]\<close> is infinite or NaN, and so are
  \<open>posInitial[0]\<close> and \<open>posInitial[2]\<close>, at the start and after every step of
  \<open>FindOneVolume\<close>, which adds \<open>t*dir[0]\<close> and \<open>t*dir[2]\<close> with \<open>t = \<plusminus>dr / 0\<close>. Only
  \<open>pos[1]\<close> stays a number. A point with an infinite or NaN coordinate lies in no magnet
  volume, and the field collaborator returns the zero vector there (\<open>src/unnamed/part_000\<close>:
  \<open>Anywhere where no region is defined the field will be equal to zero\<close>); a
  \<open>field_map\<close>, a function of real coordinates, does not say so itself. The trace then is:

  \<^item> with \<open>dr = 5 > minStep\<close> the scan for the entry sees a zero field and lowers
    \<open>pos[1]\<close> from \<open>10000 - minStep/2\<close> by \<open>dr\<close> until \<open>pos[1] \<le> 0\<close>; \<open>FindOneVolume\<close>
    returns \<open>[pos, TVector3(0,0,0)]\<close>, and \<open>FindFieldBoundaries\<close> returns the empty list;
  \<^item> otherwise \<open>FindOneVolume\<close> returns \<open>[pos, pos]\<close> with \<open>pos[1] = 10000 - minStep/2 - 2 dr\<close>
    at once. If that is \<open>\<le> 0\<close> the empty list is returned; if not, the pair, whose
    points have infinite or NaN coordinates, becomes part of the result.
\<close>

partial_function (option) descend_y :: "real \<Rightarrow> real \<Rightarrow> real option" where
  "descend_y dr y = (if y > 0 then descend_y dr (y - dr) else Some y)"

definition FindFieldBoundaries_horizontal :: "real \<Rightarrow> (fault + TVector3 list list) option" where
  "FindFieldBoundaries_horizontal minStep =
     (let dr = 5;
          y = 10000 - minStep / 2
      in if dr > minStep then
           do {
             y \<leftarrow> descend_y dr y;
             Some (Inr [])
           }
         else if y - dr * 2 \<le> 0 then Some (Inr [])
         else Some (Inl NonFinite))"

text \<open>
  \<open>FindFieldBoundaries(minStep)\<close>, with the position and the direction of the event as
  parameters: the block for a direction along x, the block for a direction along z, and
  the block that starts from the plane \<open>y = 10000\<close>.
\<close>

definition FindFieldBoundaries ::
  "field_map \<Rightarrow> TVector3 \<Rightarrow> TVector3 \<Rightarrow> real \<Rightarrow> (fault + TVector3 list list) option" where
  "FindFieldBoundaries B posInitial direction minStep0 =
     (let minStep = (if minStep0 = - 1 then 1 / 100 else minStep0)
      in if at3 direction 1 = 0 \<and> at3 direction 2 = 0 then
           FindFieldBoundaries_from B (upd3 posInitial 0 (- at3 direction 0 * 25000)) direction minStep
         else if at3 direction 0 = 0 \<and> at3 direction 1 = 0 then
           FindFieldBoundaries_from B (upd3 posInitial 2 (- at3 direction 2 * 25000)) direction minStep
         else if at3 direction 1 = 0 then FindFieldBoundaries_horizontal minStep
         else
           let t = (10000 - at3 posInitial 1) / at3 direction 1
           in FindFieldBoundaries_from B
                (TVector3 (at3 posInitial 0 + t * at3 direction 0) 10000
                          (at3 posInitial 2 + t * at3 direction 2))
                direction minStep)"

section \<open>TRestAxionFieldPropagationProcess: the field profile and the event\<close>

text \<open>
  \<open>GetFieldVector(in, out, N)\<close>. \<open>N = 0\<close> stands for \<open>10\<^sup>4\<close> samples. The loop adds to
  \<open>in\<close> itself, \<open>in = in + differential * (i / (N-1))\<close>, so each round starts from
  the point of the round before. A negative \<open>N\<close> gives a vector without elements, and
  the write of \<open>Bt[0]\<close> is out of range.
\<close>

definition GetFieldVector ::
  "field_map \<Rightarrow> TVector3 \<Rightarrow> TVector3 \<Rightarrow> TVector3 \<Rightarrow> int \<Rightarrow> fault + real list" where
  "GetFieldVector B direction inP outP N =
     (let N = (if N = 0 then 10 ^ 4 else N)
      in if N < 0 then Inl IndexOutOfRange
         else
           let Bt = replicate (nat N) 0;
               differential = vsub outP inP;
               Bt = Bt[0 := \<bar>Perp (GetMagneticField B inP) direction\<bar>];
               (inP, Bt) =
                 fold (\<lambda>i (inP, Bt).
                         let inP = vadd inP (vscale differential (real i / real_of_int (N - 1)))
                         in (inP, Bt[i := \<bar>Perp (GetMagneticField B inP) direction\<bar>]))
                      [1 ..< nat N] (inP, Bt)
           in Inr Bt)"

text \<open>
  \<open>std::vector::operator[]\<close>: reading at an index that is not below the size is
  undefined behaviour, \<open>Inl IndexOutOfRange\<close> in the model.
\<close>

definition vec_at :: "'a list \<Rightarrow> int \<Rightarrow> fault + 'a" where
  "vec_at xs i = (if 0 \<le> i \<and> i < int (length xs) then Inr (xs ! nat i) else Inl IndexOutOfRange)"

text \<open>The sum of two doubles, either of which may be NaN already.\<close>

definition add_res :: "fault + real \<Rightarrow> fault + real \<Rightarrow> fault + real" where
  "add_res a b =
     (case a of Inl e \<Rightarrow> Inl e
      | Inr x \<Rightarrow> (case b of Inl e \<Rightarrow> Inl e | Inr y \<Rightarrow> Inr (x + y)))"

record TRestAxionEvent =
  Position :: TVector3
  Direction :: TVector3
  Energy :: real
  GammaProbability :: "fault + real"

text \<open>
  ROOT's \<open>TVectorD::operator=\<close> copies the elements of the source when both vectors have
  the same number of elements. When they have not, it reports \<open>vectors not compatible\<close>
  and leaves the target as it is.
\<close>

definition TVectorD_assign :: "real list \<Rightarrow> real list \<Rightarrow> real list" where
  "TVectorD_assign target source = (if length target = length source then source else target)"

text \<open>
  The body of the first loop of \<open>ProcessEvent\<close>, for the pair \<open>boundaries[i]\<close> and the
  vector \<open>B\<close> as the rounds before have left it: \<open>B = GetFieldVector(\<dots>)\<close> assigns to
  \<open>B\<close>, \<open>probabilities[i]\<close> starts at 0, the first \<open>if\<close> assigns it, and then the second
  \<open>if\<close> or its \<open>else\<close> assigns it again. The result is \<open>B\<close> after the round and
  \<open>probabilities[i]\<close>.
\<close>

definition segment_probability ::
  "REST_Physics \<Rightarrow> TRestAxionBufferGas option \<Rightarrow> field_map \<Rightarrow> TVector3 \<Rightarrow> real \<Rightarrow> real \<Rightarrow>
     real list \<Rightarrow> TVector3 list \<Rightarrow> real list \<times> (fault + real)" where
  "segment_probability k fBufferGas B direction Ea ma Bvec seg =
     (case vec_at seg 0 of Inl e \<Rightarrow> (Bvec, Inl e) | Inr b0 \<Rightarrow>
      case vec_at seg 1 of Inl e \<Rightarrow> (Bvec, Inl e) | Inr b1 \<Rightarrow>
      case GetFieldVector B direction b0 b1 0 of Inl e \<Rightarrow> (Bvec, Inl e) | Inr Bt \<Rightarrow>
        let Bvec = TVectorD_assign Bvec Bt;
            p = Inr 0;
            p = (if at3 b0 1 = at3 b1 1 \<and> at3 b0 2 = at3 b1 2
                 then GammaTransmissionProbability_vec k fBufferGas Ea Bvec ma \<bar>at3 b0 0 - at3 b1 0\<bar>
                 else p);
            p = (if at3 b0 0 = at3 b1 0 \<and> at3 b0 1 = at3 b1 1
                 then GammaTransmissionProbability_vec k fBufferGas Ea Bvec ma \<bar>at3 b0 2 - at3 b1 2\<bar>
                 else GammaTransmissionProbability_vec k fBufferGas Ea Bvec ma \<bar>at3 b0 1 - at3 b1 1\<bar>)
        in (Bvec, p))"

text \<open>
  The two loops of \<open>ProcessEvent\<close>: the probabilities of the pairs, and their sum.
  \<open>TVectorD B;\<close> declares \<open>B\<close> without elements before the first loop.
\<close>

definition ProcessEvent_probability ::
  "REST_Physics \<Rightarrow> TRestAxionBufferGas option \<Rightarrow> field_map \<Rightarrow> TRestAxionEvent \<Rightarrow>
     TVector3 list list \<Rightarrow> fault + real" where
  "ProcessEvent_probability k fBufferGas B ev boundaries =
     (let Ea = Energy ev;
          ma = 1;
          (Bvec, probabilities) =
            fold (\<lambda>seg (Bvec, probabilities).
                    let (Bvec, p) = segment_probability k fBufferGas B (Direction ev) Ea ma Bvec seg
                    in (Bvec, probabilities @ [p]))
                 boundaries ([], [])
      in fold (\<lambda>p probability. add_res probability p) probabilities (Inr 0))"

text \<open>
  \<open>ProcessEvent\<close> after \<open>FindFieldBoundaries\<close> has returned \<open>boundaries\<close>: it stores the
  probability and then the position \<open>boundaries[NofVolumes][1]\<close>.
\<close>

definition ProcessEvent_body ::
  "REST_Physics \<Rightarrow> TRestAxionBufferGas option \<Rightarrow> field_map \<Rightarrow> TRestAxionEvent \<Rightarrow>
     TVector3 list list \<Rightarrow> fault + TRestAxionEvent" where
  "ProcessEvent_body k fBufferGas B ev boundaries =
     (let NofVolumes = int (length boundaries);
          probability = ProcessEvent_probability k fBufferGas B ev boundaries;
          ev = ev\<lparr>GammaProbability := probability\<rparr>
      in case vec_at boundaries NofVolumes of Inl e \<Rightarrow> Inl e | Inr seg \<Rightarrow>
         case vec_at seg 1 of Inl e \<Rightarrow> Inl e | Inr p \<Rightarrow>
           Inr (ev\<lparr>Position := p\<rparr>))"

text \<open>
  \<open>ProcessEvent\<close>. It calls \<open>FindFieldBoundaries()\<close> without an argument; the default
  value, declared in the header, is the parameter \<open>minStep\<close> here.
\<close>

definition ProcessEvent ::
  "REST_Physics \<Rightarrow> TRestAxionBufferGas option \<Rightarrow> field_map \<Rightarrow> real \<Rightarrow> TRestAxionEvent \<Rightarrow>
     (fault + TRestAxionEvent) option" where
  "ProcessEvent k fBufferGas B minStep ev =
     do {
       r \<leftarrow> FindFieldBoundaries B (Position ev) (Direction ev) minStep;
       case r of
         Inl e \<Rightarrow> Some (Inl e)
       | Inr boundaries \<Rightarrow> Some (ProcessEvent_body k fBufferGas B ev boundaries)
     }"

section \<open>TRestAxionFieldPropagationProcess, the version with observables\<close>

text \<open>
  The file \<open>src/unnamed/part_000\<close> holds a later \<open>TRestAxionFieldPropagationProcess\<close>. Its
  \<open>ProcessEvent\<close> uses three functions of other classes, which are parameters here
  (\<open>GetFieldBoundaries\<close>, \<open>GetTransversalComponentAlongPath\<close> and
  \<open>TRestAxionField::GammaTransmissionProbability\<close>), and the factor \<open>units("cm")\<close>.
\<close>

record field_collaborators =
  GetFieldBoundaries :: "TVector3 \<Rightarrow> TVector3 \<Rightarrow> TVector3 list"
  GetTransversalComponentAlongPath :: "TVector3 \<Rightarrow> TVector3 \<Rightarrow> real \<Rightarrow> real list"
  GammaTransmissionProbability_field :: "real list \<Rightarrow> real \<Rightarrow> real \<Rightarrow> real \<Rightarrow> real"
  units_cm :: real

record process_v2 =
  fBufferGas_v2 :: "TRestAxionBufferGas option"
  fBufferGasAdditionalLength :: real
  fIntegrationStep :: real

record axion_event_v2 =
  Position_v2 :: TVector3
  Direction_v2 :: TVector3
  Energy_v2 :: real
  Mass_v2 :: real

record observables =
  fieldAverage :: "fault + real"
  probability :: real
  coherenceLength :: real
  transmission :: real

text \<open>\<open>InitProcess\<close>: without a buffer gas the additional length is set to 0.\<close>

definition InitProcess_v2 :: "process_v2 \<Rightarrow> process_v2" where
  "InitProcess_v2 pr =
     (case fBufferGas_v2 pr of
        Some g \<Rightarrow> pr
      | None \<Rightarrow> pr\<lparr>fBufferGasAdditionalLength := 0\<rparr>)"

text \<open>
  \<open>bProfile.size() - 1\<close> is computed in \<open>size_t\<close>, 64 bits without sign, and wraps for
  an empty profile.
\<close>

definition size_minus_one :: "'a list \<Rightarrow> real" where
  "size_minus_one xs = real (unat ((of_nat (length xs) :: 64 word) - 1))"

definition ProcessEvent_v2 :: "field_collaborators \<Rightarrow> process_v2 \<Rightarrow> axion_event_v2 \<Rightarrow> observables" where
  "ProcessEvent_v2 c pr ev =
     (let trackBounds = GetFieldBoundaries c (Position_v2 ev) (Direction_v2 ev);
          none = \<lparr>fieldAverage = Inr 0, probability = 0, coherenceLength = 0, transmission = 1\<rparr>
      in if length trackBounds = 2 then
           let bProfile = GetTransversalComponentAlongPath c (trackBounds ! 0) (trackBounds ! 1)
                            (fIntegrationStep pr);
               fieldAverage = (if length bProfile = 0 then Inl NonFinite
                               else Inr (sum_list bProfile / real (length bProfile)));
               Ea = Energy_v2 ev;
               ma = Mass_v2 ev;
               prob = GammaTransmissionProbability_field c bProfile (fIntegrationStep pr) Ea ma;
               lCoh = size_minus_one bProfile * fIntegrationStep pr;
               transmission =
                 (case fBufferGas_v2 pr of
                    Some g \<Rightarrow>
                      if fBufferGasAdditionalLength pr > 0 then
                        let Gamma = GetPhotonAbsorptionLength g Ea;
                            GammaL = Gamma * lCoh * units_cm c
                        in exp (- GammaL)
                      else 1
                  | None \<Rightarrow> 1)
           in \<lparr>fieldAverage = fieldAverage, probability = prob, coherenceLength = lCoh,
               transmission = transmission\<rparr>
         else none)"

text \<open>
  What the \<open>while (dr > minStep)\<close> loop has reached when it has run at least once and
  is left normally: two steps ahead of its position lies a point of non-zero field inside
  the domain.
\<close>

definition entry_found :: "field_map \<Rightarrow> int \<Rightarrow> TVector3 \<Rightarrow> real \<Rightarrow> TVector3 \<Rightarrow> bool" where
  "entry_found B a dir dr pos =
     (let p = upd3 pos a (at3 pos a + at3 dir a * dr * 2)
      in GetMagneticField B p \<noteq> TVector3 0 0 0 \<and> - 40000 \<le> at3 p a \<and> at3 p a \<le> 40000)"

definition entry_found_general :: "field_map \<Rightarrow> TVector3 \<Rightarrow> real \<Rightarrow> TVector3 \<Rightarrow> bool" where
  "entry_found_general B dir dr pos =
     (case move_y dir pos (at3 pos 1 - dr * 2) of
        Inl e \<Rightarrow> False
      | Inr p \<Rightarrow> GetMagneticField B p \<noteq> TVector3 0 0 0 \<and> at3 p 1 > 0)"

text \<open>
  The two kinds of result of \<open>FindOneVolume\<close>: the signal that no volume follows, and
  a pair that bounds a volume.
\<close>

definition field_segment :: "field_map \<Rightarrow> TVector3 \<Rightarrow> TVector3 list \<Rightarrow> bool" where
  "field_segment B direction seg =
     (\<exists>bIn bOut. seg = [bIn, bOut] \<and> \<not> outside_domain direction bIn
        \<and> GetMagneticField B bIn \<noteq> TVector3 0 0 0 \<and> GetMagneticField B bOut = TVector3 0 0 0
        \<and> bIn \<noteq> bOut)"

definition no_further_volume :: "TVector3 \<Rightarrow> TVector3 list \<Rightarrow> bool" where
  "no_further_volume direction bInt =
     (\<exists>p. bInt = [p, TVector3 0 0 0] \<and> outside_domain direction p)"

text \<open>
  The point at which \<open>GetFieldVector\<close> takes its sample \<open>i\<close>: the steps
  \<open>1/(N-1), 2/(N-1), \<dots>, i/(N-1)\<close> of the segment add up.
\<close>

definition sample_point :: "TVector3 \<Rightarrow> TVector3 \<Rightarrow> int \<Rightarrow> nat \<Rightarrow> TVector3" where
  "sample_point inP outP N i =
     vadd inP (vscale (vsub outP inP) (real (i * (i + 1)) / (2 * real_of_int (N - 1))))"

text \<open>Fields used at concrete inputs.\<close>

definition zero_field :: field_map where
  "zero_field x y z = TVector3 0 0 0"

definition uniform_field :: field_map where
  "uniform_field x y z = TVector3 0 0 1"

definition probe_field :: field_map where
  "probe_field x y z = TVector3 0 x 0"

definition slab_field :: field_map where
  "slab_field x y z = (if 0 \<le> x \<and> x \<le> 10 then TVector3 0 0 1 else TVector3 0 0 0)"

text \<open>
  For the sums of a histogram: the content of all cells but the underflow, and the
  shape of a histogram with a proper axis.
\<close>

definition cells :: "TH1F \<Rightarrow> real" where
  "cells h = sum_list (tl (fArray h))"

definition wf_hist :: "TH1F \<Rightarrow> bool" where
  "wf_hist h \<longleftrightarrow> 1 \<le> fNbins h \<and> length (fArray h) = nat (fNbins h + 2) \<and> fXmin h < fXmax h"

text \<open>A buffer gas used at concrete inputs: photon mass 1 eV, absorption 4 per cm.\<close>

definition absorbing_gas :: TRestAxionBufferGas where
  "absorbing_gas = \<lparr>GetPhotonMass = (\<lambda>Ea. 1), GetPhotonAbsorptionLength = (\<lambda>Ea. 4)\<rparr>"

section \<open>Properties of the scalar conversion probability\<close>

lemma BLHalfSquared_eq_BL: "BLHalfSquared k Bmag Lcoh = (BL k Bmag Lcoh / 2)\<^sup>2"
  by (simp add: BLHalfSquared_def BL_def Let_def power2_eq_square)


text \<open>
  Claim C3. When the axion mass and the photon mass of the medium are both zero, the
  scalar \<open>GammaTransmissionProbability\<close> returns \<open>BLHalfSquared Bmag Lcoh\<close>, which is
  \<open>(BL/2)\<^sup>2\<close> in natural units, for every field, length, energy and absorption: the
  return precedes the computation of \<open>q\<close> and of \<open>MFactor\<close>, so the result is a finite
  number and no division by zero is reached.
\<close>

theorem vacuum_degeneracy_short_circuit:
  assumes "ma = 0" and "photonMass_of fBufferGas Ea = 0"
  shows "GammaTransmissionProbability k fBufferGas Ea Bmag ma Lcoh = Inr (BLHalfSquared k Bmag Lcoh)
       \<and> BLHalfSquared k Bmag Lcoh = (BL k Bmag Lcoh / 2)\<^sup>2"
  using assms by (simp add: GammaTransmissionProbability_def BLHalfSquared_eq_BL)

theorem vacuum_degeneracy_short_circuit_witness:
  "GammaTransmissionProbability REST_Physics_values None (42 / 10) 2 0 4000
     = Inr (BLHalfSquared REST_Physics_values 2 4000)
   \<and> BLHalfSquared REST_Physics_values 2 4000 = (BL REST_Physics_values 2 4000 / 2)\<^sup>2"
  using vacuum_degeneracy_short_circuit [of 0 None "42 / 10" REST_Physics_values 2 4000]
  by (simp add: photonMass_of_def)

text \<open>
  Claim C2, as the code has it. Let \<open>m\<gamma>\<close> and \<open>\<Gamma>\<close> be the photon mass and the
  absorption that the medium gives at the energy \<open>Ea\<close>, both 0 when no medium is
  assigned. For \<open>Ea > 0\<close> and \<open>ma\<close>, \<open>m\<gamma>\<close> not both zero, let
  \<open>q = (ma\<^sup>2 - m\<gamma>\<^sup>2) / (2 Ea)\<close> (\<open>Ea\<close> in eV, that is 1000 times the keV value),
  \<open>\<phi> = q \<cdot> Lcoh\<close> (\<open>Lcoh\<close> in metres times \<open>PhMeterIneV\<close>) and \<open>\<Gamma>L = \<Gamma> \<cdot> Lcoh\<close>
  (\<open>Lcoh\<close> in cm). Where \<open>\<phi>\<^sup>2 + (\<Gamma>L/2)\<^sup>2 \<noteq> 0\<close> the scalar \<open>GammaTransmissionProbability\<close>
  returns \<open>M \<cdot> (BL/2)\<^sup>2 \<cdot> (1 + e\<^sup>-\<^sup>\<Gamma>\<^sup>L - 2 e\<^sup>-\<^sup>\<Gamma>\<^sup>L\<^sup>/\<^sup>2 cos \<phi>)\<close> with \<open>M = 1 / (\<phi>\<^sup>2 + (\<Gamma>L/2)\<^sup>2)\<close>. Where
  \<open>\<phi>\<^sup>2 + (\<Gamma>L/2)\<^sup>2 = 0\<close> the factor \<open>M\<close> is \<open>1/0\<close> and the bracket is 0: the result is not a
  number.
\<close>

theorem van_Bibber_formula:
  fixes fBufferGas :: "TRestAxionBufferGas option"
  assumes "Ea > 0"
    and "mgamma = (case fBufferGas of None \<Rightarrow> 0 | Some gas \<Rightarrow> GetPhotonMass gas Ea)"
    and "Gamma = (case fBufferGas of None \<Rightarrow> 0 | Some gas \<Rightarrow> GetPhotonAbsorptionLength gas Ea)"
    and "\<not> (ma = 0 \<and> mgamma = 0)"
  shows "GammaTransmissionProbability k fBufferGas Ea Bmag ma Lcoh =
     (let q = (ma\<^sup>2 - mgamma\<^sup>2) / (2 * (1000 * Ea));
          phi = q * (Lcoh / 1000 * PhMeterIneV k);
          GammaL = Gamma * (Lcoh / 10)
      in if phi\<^sup>2 + (GammaL / 2)\<^sup>2 = 0 then Inl NonFinite
         else let M = 1 / (phi\<^sup>2 + (GammaL / 2)\<^sup>2)
              in Inr (M * (BL k Bmag Lcoh / 2)\<^sup>2 *
                      (1 + exp (- GammaL) - 2 * exp (- GammaL / 2) * cos phi)))"
proof -
  have sq: "x * x + y * y / 4 = x\<^sup>2 + (y / 2)\<^sup>2" for x y :: real
    by (simp add: power2_eq_square)
  have q: "(ma * ma - m * m) / 2 / Ea / 1000 = (ma\<^sup>2 - m\<^sup>2) / (2 * (1000 * Ea))" for m :: real
    by (simp add: power2_eq_square)
  have g: "G * (Lcoh / 1000) * 100 = G * (Lcoh / 10)" for G :: real
    by simp
  from assms(2) have m: "photonMass_of fBufferGas Ea = mgamma" by (simp add: photonMass_of_def)
  from assms(3) have G: "Gamma_of fBufferGas Ea = Gamma" by (simp add: Gamma_of_def)
  from assms(1,4) show ?thesis
    unfolding GammaTransmissionProbability_def Let_def m G sq q g BLHalfSquared_eq_BL
    by auto
qed

theorem van_Bibber_formula_witness:
  "GammaTransmissionProbability REST_Physics_values
     (Some \<lparr>GetPhotonMass = (\<lambda>E. 1), GetPhotonAbsorptionLength = (\<lambda>E. 2)\<rparr>) 1 2 2 10
   = Inr (1 / ((3 / 2000 * (10 / 1000 * PhMeterIneV REST_Physics_values))\<^sup>2 + 1)
          * (BL REST_Physics_values 2 10 / 2)\<^sup>2
          * (1 + exp (- 2) - 2 * exp (- 1) * cos (3 / 2000 * (10 / 1000 * PhMeterIneV REST_Physics_values))))"
proof -
  have "x\<^sup>2 + 1 \<noteq> 0" for x :: real
    using zero_le_power2 [of x] by linarith
  then have ne: "(3 / 2000 * (10 / 1000 * PhMeterIneV REST_Physics_values))\<^sup>2 + 1 \<noteq> 0" .
  show ?thesis
    using ne van_Bibber_formula
      [of 1 1 "Some \<lparr>GetPhotonMass = (\<lambda>E. 1), GetPhotonAbsorptionLength = (\<lambda>E. 2)\<rparr>" 2 2
          REST_Physics_values 2 10]
    by (simp add: Let_def)
qed

text \<open>
  Claim C2, as stated, fails where \<open>\<phi> = \<Gamma>L = 0\<close> with masses that are not both zero.
  Without a medium, for \<open>Ea = 1\<close> keV, \<open>ma = 1\<close> eV and the length \<open>Lcoh = 0\<close>, and in a
  medium with photon mass 1 eV and no absorption, for \<open>ma = 1\<close> eV and \<open>Lcoh = 10\<close> mm,
  the function returns no number.
\<close>

theorem van_Bibber_formula_no_value:
  "GammaTransmissionProbability REST_Physics_values None 1 2 1 0 = Inl NonFinite
   \<and> GammaTransmissionProbability REST_Physics_values
       (Some \<lparr>GetPhotonMass = (\<lambda>E. 1), GetPhotonAbsorptionLength = (\<lambda>E. 0)\<rparr>) 1 2 1 10
     = Inl NonFinite"
  by (simp add: GammaTransmissionProbability_def Let_def photonMass_of_def Gamma_of_def)

section \<open>Properties of the boundary trace\<close>

lemma at3_upd3_same [simp]: "at3 (upd3 p a v) a = v"
  by (cases p) simp

lemma upd3_upd3_same [simp]: "upd3 (upd3 p a v) a w = upd3 p a w"
  by (cases p) simp

lemma upd3_at3_same [simp]: "upd3 p a (at3 p a) = p"
  by (cases p) simp

lemma advance_axis_result:
  assumes "advance_axis B a dir dr pos = Some p"
  shows "\<not> (GetMagneticField B p = TVector3 0 0 0 \<and> - 40000 \<le> at3 p a \<and> at3 p a \<le> 40000)"
  by (rule advance_axis.raw_induct
        [where P = "\<lambda>B a dir dr pos p.
           \<not> (GetMagneticField B p = TVector3 0 0 0 \<and> - 40000 \<le> at3 p a \<and> at3 p a \<le> 40000)",
         OF _ assms])
     (auto split: if_splits)

lemma exit_axis_result:
  assumes "exit_axis B a dir dr pos = Some q"
  shows "GetMagneticField B q = TVector3 0 0 0"
  by (rule exit_axis.raw_induct
        [where P = "\<lambda>B a dir dr pos q. GetMagneticField B q = TVector3 0 0 0", OF _ assms])
     (auto split: if_splits)

lemma bisect_axis_result:
  assumes "bisect_axis B a dir minStep dr pos = Some r"
  shows "case r of
           Inl b \<Rightarrow> \<exists>p. b = [p, TVector3 0 0 0] \<and> (at3 p a < - 40000 \<or> at3 p a > 40000)
         | Inr (dr', pos') \<Rightarrow>
             (dr' = dr \<and> pos' = pos \<and> \<not> dr > minStep) \<or> entry_found B a dir dr' pos'"
proof (rule bisect_axis.raw_induct
        [where P = "\<lambda>B a dir minStep dr pos r. case r of
           Inl b \<Rightarrow> \<exists>p. b = [p, TVector3 0 0 0] \<and> (at3 p a < - 40000 \<or> at3 p a > 40000)
         | Inr (dr', pos') \<Rightarrow>
             (dr' = dr \<and> pos' = pos \<and> \<not> dr > minStep) \<or> entry_found B a dir dr' pos'",
         OF _ assms], goal_cases)
  case (1 f B a dir minStep dr pos r)
  show ?case
  proof (cases "dr > minStep")
    case False
    with 1(2) show ?thesis by auto
  next
    case True
    with 1(2) obtain p1 where adv: "advance_axis B a dir dr pos = Some p1"
      and rest: "(if at3 p1 a < - 40000 \<or> at3 p1 a > 40000 then Some (Inl [p1, TVector3 0 0 0])
                  else f B a dir minStep (dr / 2) (upd3 p1 a (at3 p1 a - at3 dir a * dr))) = Some r"
      by (auto simp: bind_eq_Some_conv)
    show ?thesis
    proof (cases "at3 p1 a < - 40000 \<or> at3 p1 a > 40000")
      case True
      with rest show ?thesis by auto
    next
      case False
      with rest have rec: "f B a dir minStep (dr / 2) (upd3 p1 a (at3 p1 a - at3 dir a * dr)) = Some r"
        by simp
      from advance_axis_result [OF adv] False
      have nz: "GetMagneticField B p1 \<noteq> TVector3 0 0 0" by auto
      have found: "entry_found B a dir (dr / 2) (upd3 p1 a (at3 p1 a - at3 dir a * dr))"
        using nz False by (simp add: entry_found_def)
      from 1(1) [OF rec] found show ?thesis
        by (auto split: sum.splits prod.splits)
    qed
  qed
qed

lemma FindOneVolume_axis_result:
  assumes "FindOneVolume_axis B a pos dir minStep = Some b" and "minStep < 5"
  shows "(\<exists>p. b = [p, TVector3 0 0 0] \<and> (at3 p a < - 40000 \<or> at3 p a > 40000))
       \<or> (\<exists>bIn bOut. b = [bIn, bOut] \<and> - 40000 \<le> at3 bIn a \<and> at3 bIn a \<le> 40000
            \<and> GetMagneticField B bIn \<noteq> TVector3 0 0 0 \<and> GetMagneticField B bOut = TVector3 0 0 0)"
proof -
  from assms(1) obtain r where
    bis: "bisect_axis B a dir minStep 5 (upd3 pos a (at3 pos a + at3 dir a * minStep / 2)) = Some r"
    and rest: "(case r of Inl boundary \<Rightarrow> Some boundary
         | Inr (dr, pos) \<Rightarrow>
             do {
               let pos = upd3 pos a (at3 pos a + at3 dir a * dr * 2);
               let boundaryIn = pos;
               boundaryOut \<leftarrow> exit_axis B a dir dr pos;
               Some [boundaryIn, boundaryOut]
             }) = Some b"
    by (auto simp: FindOneVolume_axis_def bind_eq_Some_conv)
  show ?thesis
  proof (cases r)
    case (Inl b')
    with rest bisect_axis_result [OF bis] show ?thesis by auto
  next
    case (Inr s)
    obtain dr' pos' where s: "s = (dr', pos')" by (cases s)
    from bisect_axis_result [OF bis] Inr s assms(2)
    have found: "entry_found B a dir dr' pos'" by auto
    from rest Inr s obtain q where
      ex: "exit_axis B a dir dr' (upd3 pos' a (at3 pos' a + at3 dir a * dr' * 2)) = Some q"
      and b: "b = [upd3 pos' a (at3 pos' a + at3 dir a * dr' * 2), q]"
      by (auto simp: bind_eq_Some_conv Let_def)
    from found exit_axis_result [OF ex] b show ?thesis
      by (auto simp: entry_found_def Let_def)
  qed
qed


lemma advance_general_result:
  assumes "advance_general B dir dr pos = Some (Inr p)"
  shows "\<not> (GetMagneticField B p = TVector3 0 0 0 \<and> at3 p 1 > 0)"
  by (rule advance_general.raw_induct
        [where P = "\<lambda>B dir dr pos r. \<forall>p. r = Inr p \<longrightarrow>
           \<not> (GetMagneticField B p = TVector3 0 0 0 \<and> at3 p 1 > 0)",
         OF _ assms, rule_format])
     (auto split: if_splits sum.splits)

lemma exit_general_result:
  assumes "exit_general B dir dr pos = Some (Inr q)"
  shows "GetMagneticField B q = TVector3 0 0 0"
  by (rule exit_general.raw_induct
        [where P = "\<lambda>B dir dr pos r. \<forall>q. r = Inr q \<longrightarrow> GetMagneticField B q = TVector3 0 0 0",
         OF _ assms, rule_format])
     (auto split: if_splits sum.splits)

lemma move_y_back:
  assumes "move_y dir p (at3 p 1 + dr) = Inr p'"
  shows "move_y dir p' (at3 p' 1 - dr / 2 * 2) = Inr p"
  using assms by (cases p) (auto simp: move_y_def Let_def split: if_splits simp: field_simps)

lemma bisect_general_result:
  assumes "bisect_general B dir minStep dr pos = Some (Inr r)"
  shows "case r of
           Inl b \<Rightarrow> \<exists>p. b = [p, TVector3 0 0 0] \<and> at3 p 1 \<le> 0
         | Inr (dr', pos') \<Rightarrow>
             (dr' = dr \<and> pos' = pos \<and> \<not> dr > minStep) \<or> entry_found_general B dir dr' pos'"
proof (rule bisect_general.raw_induct
        [where P = "\<lambda>B dir minStep dr pos r'. \<forall>r. r' = Inr r \<longrightarrow> (case r of
           Inl b \<Rightarrow> \<exists>p. b = [p, TVector3 0 0 0] \<and> at3 p 1 \<le> 0
         | Inr (dr', pos') \<Rightarrow>
             (dr' = dr \<and> pos' = pos \<and> \<not> dr > minStep) \<or> entry_found_general B dir dr' pos')",
         OF _ assms, rule_format], goal_cases)
  case (1 f B dir minStep dr pos r' r)
  show ?case
  proof (cases "dr > minStep")
    case False
    with 1(2,3) show ?thesis by auto
  next
    case True
    with 1(2,3) obtain y where y: "advance_general B dir dr pos = Some y"
      and resty: "(case y of
            Inl e \<Rightarrow> Some (Inl e)
          | Inr pos \<Rightarrow>
              if at3 pos 1 \<le> 0 then Some (Inr (Inl [pos, TVector3 0 0 0]))
              else (case move_y dir pos (at3 pos 1 + dr) of
                      Inl e \<Rightarrow> Some (Inl e)
                    | Inr pos' \<Rightarrow> f B dir minStep (dr / 2) pos')) = Some (Inr r)"
      by (auto simp: bind_eq_Some_conv)
    from resty obtain p1 where p1: "y = Inr p1" by (cases y) auto
    from y p1 have adv: "advance_general B dir dr pos = Some (Inr p1)" by simp
    from resty p1 have
      rest: "(if at3 p1 1 \<le> 0 then Some (Inr (Inl [p1, TVector3 0 0 0]))
                  else (case move_y dir p1 (at3 p1 1 + dr) of
                          Inl e \<Rightarrow> Some (Inl e)
                        | Inr pos' \<Rightarrow> f B dir minStep (dr / 2) pos')) = Some (Inr r)"
      by simp
    show ?thesis
    proof (cases "at3 p1 1 \<le> 0")
      case True
      with rest show ?thesis by auto
    next
      case False
      with rest obtain p2 where mv: "move_y dir p1 (at3 p1 1 + dr) = Inr p2"
        by (cases "move_y dir p1 (at3 p1 1 + dr)") auto
      with rest False have rec: "f B dir minStep (dr / 2) p2 = Some (Inr r)"
        by simp
      from advance_general_result [OF adv] False
      have nz: "GetMagneticField B p1 \<noteq> TVector3 0 0 0" by auto
      have found: "entry_found_general B dir (dr / 2) p2"
        using nz False move_y_back [OF mv] by (simp add: entry_found_general_def)
      from 1(1) [OF rec] found show ?thesis
        by (auto split: sum.splits prod.splits)
    qed
  qed
next
  case 2
  show ?case by (rule refl)
qed

lemma FindOneVolume_general_result:
  assumes "FindOneVolume_general B pos dir minStep = Some (Inr b)" and "minStep < 5"
  shows "(\<exists>p. b = [p, TVector3 0 0 0] \<and> at3 p 1 \<le> 0)
       \<or> (\<exists>bIn bOut. b = [bIn, bOut] \<and> at3 bIn 1 > 0
            \<and> GetMagneticField B bIn \<noteq> TVector3 0 0 0 \<and> GetMagneticField B bOut = TVector3 0 0 0)"
proof -
  from assms(1) obtain y where
    y: "bisect_general B dir minStep 5 (upd3 pos 1 (at3 pos 1 - minStep / 2)) = Some y"
    and resty: "(case y of
         Inl e \<Rightarrow> Some (Inl e)
       | Inr (Inl boundary) \<Rightarrow> Some (Inr boundary)
       | Inr (Inr (dr, pos)) \<Rightarrow>
           (case move_y dir pos (at3 pos 1 - dr * 2) of
              Inl e \<Rightarrow> Some (Inl e)
            | Inr boundaryIn \<Rightarrow>
                do {
                  r' \<leftarrow> exit_general B dir dr boundaryIn;
                  case r' of
                    Inl e \<Rightarrow> Some (Inl e)
                  | Inr boundaryOut \<Rightarrow> Some (Inr [boundaryIn, boundaryOut])
                })) = Some (Inr b)"
    by (auto simp: FindOneVolume_general_def bind_eq_Some_conv)
  from resty obtain r where r: "y = Inr r" by (cases y) auto
  from y r have bis:
    "bisect_general B dir minStep 5 (upd3 pos 1 (at3 pos 1 - minStep / 2)) = Some (Inr r)"
    by simp
  from resty r have rest: "(case r of
         Inl boundary \<Rightarrow> Some (Inr boundary)
       | Inr (dr, pos) \<Rightarrow>
           (case move_y dir pos (at3 pos 1 - dr * 2) of
              Inl e \<Rightarrow> Some (Inl e)
            | Inr boundaryIn \<Rightarrow>
                do {
                  r' \<leftarrow> exit_general B dir dr boundaryIn;
                  case r' of
                    Inl e \<Rightarrow> Some (Inl e)
                  | Inr boundaryOut \<Rightarrow> Some (Inr [boundaryIn, boundaryOut])
                })) = Some (Inr b)"
    by simp
  show ?thesis
  proof (cases r)
    case (Inl b')
    with rest bisect_general_result [OF bis] show ?thesis by auto
  next
    case (Inr s)
    obtain dr' pos' where s: "s = (dr', pos')" by (cases s)
    from bisect_general_result [OF bis] Inr s assms(2)
    have found: "entry_found_general B dir dr' pos'" by auto
    from found obtain bIn where mv: "move_y dir pos' (at3 pos' 1 - dr' * 2) = Inr bIn"
      by (cases "move_y dir pos' (at3 pos' 1 - dr' * 2)") (auto simp: entry_found_general_def)
    with rest Inr s obtain y' where y': "exit_general B dir dr' bIn = Some y'"
      and resty': "(case y' of Inl e \<Rightarrow> Some (Inl e)
                    | Inr boundaryOut \<Rightarrow> Some (Inr [bIn, boundaryOut])) = Some (Inr b)"
      by (auto simp: bind_eq_Some_conv)
    from resty' obtain q where q: "y' = Inr q" and b: "b = [bIn, q]" by (cases y') auto
    from y' q have ex: "exit_general B dir dr' bIn = Some (Inr q)" by simp
    from found mv exit_general_result [OF ex] b show ?thesis
      by (auto simp: entry_found_general_def)
  qed
qed

lemma FindOneVolume_result:
  assumes "FindOneVolume B pos dir minStep = Some (Inr b)" and "minStep < 5"
  shows "(\<exists>p. b = [p, TVector3 0 0 0] \<and> outside_domain dir p)
       \<or> (\<exists>bIn bOut. b = [bIn, bOut] \<and> \<not> outside_domain dir bIn
            \<and> GetMagneticField B bIn \<noteq> TVector3 0 0 0 \<and> GetMagneticField B bOut = TVector3 0 0 0
            \<and> bIn \<noteq> bOut)"
proof -
  consider (x) "at3 dir 1 = 0 \<and> at3 dir 2 = 0"
    | (z) "\<not> (at3 dir 1 = 0 \<and> at3 dir 2 = 0)" "at3 dir 0 = 0 \<and> at3 dir 1 = 0"
    | (g) "\<not> (at3 dir 1 = 0 \<and> at3 dir 2 = 0)" "\<not> (at3 dir 0 = 0 \<and> at3 dir 1 = 0)"
    by blast
  then show ?thesis
  proof cases
    case x
    with assms(1) have "FindOneVolume_axis B 0 pos dir minStep = Some b"
      by (auto simp: FindOneVolume_def)
    from FindOneVolume_axis_result [OF this assms(2)] x show ?thesis
      by (auto simp: outside_domain_def)
  next
    case z
    with assms(1) have "FindOneVolume_axis B 2 pos dir minStep = Some b"
      by (auto simp: FindOneVolume_def)
    from FindOneVolume_axis_result [OF this assms(2)] z show ?thesis
      by (auto simp: outside_domain_def)
  next
    case g
    with assms(1) have "FindOneVolume_general B pos dir minStep = Some (Inr b)"
      by (auto simp: FindOneVolume_def)
    from FindOneVolume_general_result [OF this assms(2)] g show ?thesis
      by (auto simp: outside_domain_def)
  qed
qed



lemma FindOneVolume_result':
  assumes "FindOneVolume B pos dir minStep = Some (Inr b)" and "minStep < 5"
  shows "no_further_volume dir b \<or> field_segment B dir b"
  using FindOneVolume_result [OF assms]
  by (auto simp: no_further_volume_def field_segment_def)

text \<open>
  The pairs that \<open>FindFieldBoundaries\<close> returns are the pairs that bound a volume: the
  signal ends the list and is not part of it.
\<close>

lemma collect_volumes_segments:
  assumes "collect_volumes B direction minStep acc bInt = Some (Inr bs)"
    and "minStep < 5"
    and "\<forall>seg\<in>set acc. field_segment B direction seg"
    and "no_further_volume direction bInt \<or> field_segment B direction bInt"
    and "seg \<in> set bs"
  shows "field_segment B direction seg"
proof -
  have "minStep < 5 \<and> (\<forall>seg\<in>set acc. field_segment B direction seg)
             \<and> (no_further_volume direction bInt \<or> field_segment B direction bInt)
           \<longrightarrow> (\<forall>bs' seg. (Inr bs :: fault + TVector3 list list) = Inr bs' \<longrightarrow> seg \<in> set bs'
                  \<longrightarrow> field_segment B direction seg)"
  proof (rule collect_volumes.raw_induct
        [where P = "\<lambda>B direction minStep acc bInt r.
           minStep < 5 \<and> (\<forall>seg\<in>set acc. field_segment B direction seg)
             \<and> (no_further_volume direction bInt \<or> field_segment B direction bInt)
           \<longrightarrow> (\<forall>bs seg. r = Inr bs \<longrightarrow> seg \<in> set bs \<longrightarrow> field_segment B direction seg)",
         OF _ assms(1)], goal_cases)
    case (1 f B direction minStep acc bInt r)
    show ?case
    proof (intro impI allI)
      fix bs seg
      assume pre: "minStep < 5 \<and> (\<forall>seg\<in>set acc. field_segment B direction seg)
             \<and> (no_further_volume direction bInt \<or> field_segment B direction bInt)"
        and r: "r = Inr bs" and seg: "seg \<in> set bs"
      from pre have ms: "minStep < 5" and acc: "\<forall>seg\<in>set acc. field_segment B direction seg"
        and bInt: "no_further_volume direction bInt \<or> field_segment B direction bInt"
        by blast+
      from bInt obtain b0 b1 where b: "bInt = [b0, b1]"
        by (auto simp: no_further_volume_def field_segment_def)
      show "field_segment B direction seg"
      proof (cases "outside_domain direction b0")
        case True
        with 1(2) r seg b acc show ?thesis by auto
      next
        case False
        with bInt b have seg0: "field_segment B direction [b0, b1]"
          by (auto simp: no_further_volume_def)
        from 1(2) r b False obtain y where fov: "FindOneVolume B b1 direction minStep = Some y"
          and rest: "(case y of Inl e \<Rightarrow> Some (Inl e)
                      | Inr bInt' \<Rightarrow> f B direction minStep (acc @ [[b0, b1]]) bInt') = Some (Inr bs)"
          by (auto simp: bind_eq_Some_conv)
        from rest obtain bInt' where y: "y = Inr bInt'"
          and rec: "f B direction minStep (acc @ [[b0, b1]]) bInt' = Some (Inr bs)"
          by (cases y) auto
        from fov y have nxt: "no_further_volume direction bInt' \<or> field_segment B direction bInt'"
          using FindOneVolume_result' ms by blast
        from acc seg0 have acc': "\<forall>seg\<in>set (acc @ [[b0, b1]]). field_segment B direction seg"
          by auto
        from 1(1) [OF rec] ms acc' nxt seg show ?thesis by blast
      qed
    qed
  qed
  with assms show ?thesis by blast
qed

lemma FindFieldBoundaries_from_segments:
  assumes "FindFieldBoundaries_from B p0 direction ms = Some (Inr bs)" and "ms < 5"
    and "seg \<in> set bs"
  shows "field_segment B direction seg"
proof -
  from assms(1) obtain y where fov: "FindOneVolume B p0 direction ms = Some y"
    and rest: "(case y of Inl e \<Rightarrow> Some (Inl e)
                | Inr bInt \<Rightarrow> collect_volumes B direction ms [] bInt) = Some (Inr bs)"
    by (auto simp: FindFieldBoundaries_from_def bind_eq_Some_conv)
  from rest obtain bInt where y: "y = Inr bInt"
    and col: "collect_volumes B direction ms [] bInt = Some (Inr bs)"
    by (cases y) auto
  from fov y have "no_further_volume direction bInt \<or> field_segment B direction bInt"
    using FindOneVolume_result' assms(2) by blast
  from collect_volumes_segments [OF col assms(2) _ this assms(3)] show ?thesis by simp
qed

lemma FindFieldBoundaries_horizontal_result:
  assumes "FindFieldBoundaries_horizontal ms = Some (Inr bs)"
  shows "bs = []"
  using assms
  by (auto simp: FindFieldBoundaries_horizontal_def Let_def bind_eq_Some_conv split: if_splits)

lemma FindFieldBoundaries_segments:
  assumes "FindFieldBoundaries B posInitial direction minStep = Some (Inr bs)" and "minStep < 5"
    and "seg \<in> set bs"
  shows "field_segment B direction seg"
proof -
  let ?ms = "if minStep = - 1 then 1 / 100 else minStep"
  from assms(2) have ms: "?ms < 5" by simp
  from assms(1) consider
      p0 where "FindFieldBoundaries_from B p0 direction ?ms = Some (Inr bs)"
    | "FindFieldBoundaries_horizontal ?ms = Some (Inr bs)"
    unfolding FindFieldBoundaries_def Let_def by (auto split: if_splits)
  then show ?thesis
  proof cases
    case 1
    from FindFieldBoundaries_from_segments [OF this ms assms(3)] show ?thesis .
  next
    case 2
    from FindFieldBoundaries_horizontal_result [OF this] assms(3) show ?thesis by simp
  qed
qed

text \<open>
  Claim C8, as the code has it. \<open>FindOneVolume\<close> never returns an empty result. When
  it returns and \<open>minStep < 5\<close>, the result is either the pair \<open>[p, TVector3(0,0,0)]\<close>
  with \<open>p\<close> outside the search domain (the signal for no further volume, which
  \<open>FindFieldBoundaries\<close> recognises by \<open>p\<close>), or a pair \<open>[bIn, bOut]\<close> with \<open>bIn\<close>
  inside the domain, a non-zero field at \<open>bIn\<close> and a zero field at \<open>bOut\<close>, so that
  \<open>bIn \<noteq> bOut\<close>.
\<close>

theorem FindOneVolume_sentinel_or_segment:
  assumes "FindOneVolume B pos dir minStep = Some (Inr b)" and "minStep < 5"
  shows "no_further_volume dir b \<or> field_segment B dir b"
  using assms by (rule FindOneVolume_result')

theorem FindOneVolume_sentinel_or_segment_witness:
  "FindOneVolume slab_field (TVector3 (- 1) 0 0) (TVector3 1 0 0) 1
     = Some (Inr [TVector3 (3 / 4) 0 0, TVector3 (81 / 8) 0 0])
   \<and> (1 :: real) < 5
   \<and> field_segment slab_field (TVector3 1 0 0) [TVector3 (3 / 4) 0 0, TVector3 (81 / 8) 0 0]"
proof -
  have run: "FindOneVolume slab_field (TVector3 (- 1) 0 0) (TVector3 1 0 0) 1
     = Some (Inr [TVector3 (3 / 4) 0 0, TVector3 (81 / 8) 0 0])"
    by (simp add: FindOneVolume_def FindOneVolume_axis_def bisect_axis.simps advance_axis.simps
        exit_axis.simps GetMagneticField_def slab_field_def)
  from FindOneVolume_sentinel_or_segment [OF run] run show ?thesis
    by (simp add: no_further_volume_def)
qed

text \<open>
  Claim C8, as stated, fails: in a field that is zero everywhere, from \<open>x = 39999\<close> along
  \<open>+x\<close>, \<open>FindOneVolume\<close> returns a pair, not an empty result, and the second point of
  the pair is the zero vector \<open>TVector3(0,0,0)\<close>, which is not a point of the trace.
\<close>

theorem FindOneVolume_zero_vector_sentinel:
  "FindOneVolume zero_field (TVector3 39999 0 0) (TVector3 1 0 0) (1 / 100)
     = Some (Inr [TVector3 (40004 + 1 / 200) 0 0, TVector3 0 0 0])"
  by (simp add: FindOneVolume_def FindOneVolume_axis_def bisect_axis.simps advance_axis.simps
        GetMagneticField_def zero_field_def)

subsection \<open>Termination in a field that vanishes outside the domain\<close>

text \<open>
  The scan for the entry stops at the domain bound, and the step is halved until it is
  at most \<open>minStep\<close>. The scan for the exit tests the field only; it ends when the
  field is zero everywhere outside the domain and the position moves.
\<close>

lemma advance_axis_terminates_up:
  assumes s: "at3 dir a * dr > 0"
  shows "40000 - at3 pos a < real n * (at3 dir a * dr) \<Longrightarrow>
         \<exists>p. advance_axis B a dir dr pos = Some p"
proof (induction n arbitrary: pos)
  case 0
  then show ?case by (subst advance_axis.simps) simp
next
  case (Suc n)
  have "40000 - at3 (upd3 pos a (at3 pos a + at3 dir a * dr)) a < real n * (at3 dir a * dr)"
    using Suc.prems by (simp add: algebra_simps)
  from Suc.IH [OF this] show ?case
    by (subst advance_axis.simps) simp
qed

lemma advance_axis_terminates_down:
  assumes s: "at3 dir a * dr < 0"
  shows "at3 pos a + 40000 < real n * - (at3 dir a * dr) \<Longrightarrow>
         \<exists>p. advance_axis B a dir dr pos = Some p"
proof (induction n arbitrary: pos)
  case 0
  then show ?case by (subst advance_axis.simps) simp
next
  case (Suc n)
  have "at3 (upd3 pos a (at3 pos a + at3 dir a * dr)) a + 40000 < real n * - (at3 dir a * dr)"
    using Suc.prems by (simp add: algebra_simps)
  from Suc.IH [OF this] show ?case
    by (subst advance_axis.simps) simp
qed

lemma advance_axis_terminates:
  assumes "at3 dir a * dr \<noteq> 0"
  shows "\<exists>p. advance_axis B a dir dr pos = Some p"
proof (cases "at3 dir a * dr > 0")
  case True
  obtain n :: nat where "(40000 - at3 pos a) / (at3 dir a * dr) < real n"
    using reals_Archimedean2 by blast
  with True have "40000 - at3 pos a < real n * (at3 dir a * dr)"
    by (simp add: pos_divide_less_eq)
  from advance_axis_terminates_up [OF True this] show ?thesis .
next
  case False
  from assms(1) False have neg: "at3 dir a * dr < 0" by linarith
  define t where "t = - (at3 dir a * dr)"
  from neg have t: "0 < t" by (simp add: t_def)
  obtain n :: nat where "(at3 pos a + 40000) / t < real n"
    using reals_Archimedean2 by blast
  with t have "at3 pos a + 40000 < real n * t"
    by (simp add: pos_divide_less_eq)
  then have "at3 pos a + 40000 < real n * - (at3 dir a * dr)"
    by (simp only: t_def)
  from advance_axis_terminates_down [OF neg this] show ?thesis .
qed

lemma exit_axis_terminates_up:
  assumes s: "at3 dir a * dr > 0"
    and out: "\<And>p. at3 p a > 40000 \<Longrightarrow> GetMagneticField B p = TVector3 0 0 0"
  shows "40000 - at3 pos a < real n * (at3 dir a * dr) \<Longrightarrow>
         \<exists>q. exit_axis B a dir dr pos = Some q"
proof (induction n arbitrary: pos)
  case 0
  then have "GetMagneticField B pos = TVector3 0 0 0" by (intro out) simp
  then show ?case by (subst exit_axis.simps) simp
next
  case (Suc n)
  have "40000 - at3 (upd3 pos a (at3 pos a + at3 dir a * dr)) a < real n * (at3 dir a * dr)"
    using Suc.prems by (simp add: algebra_simps)
  from Suc.IH [OF this] show ?case
    by (subst exit_axis.simps) simp
qed

lemma exit_axis_terminates_down:
  assumes s: "at3 dir a * dr < 0"
    and out: "\<And>p. at3 p a < - 40000 \<Longrightarrow> GetMagneticField B p = TVector3 0 0 0"
  shows "at3 pos a + 40000 < real n * - (at3 dir a * dr) \<Longrightarrow>
         \<exists>q. exit_axis B a dir dr pos = Some q"
proof (induction n arbitrary: pos)
  case 0
  then have "GetMagneticField B pos = TVector3 0 0 0" by (intro out) simp
  then show ?case by (subst exit_axis.simps) simp
next
  case (Suc n)
  have "at3 (upd3 pos a (at3 pos a + at3 dir a * dr)) a + 40000 < real n * - (at3 dir a * dr)"
    using Suc.prems by (simp add: algebra_simps)
  from Suc.IH [OF this] show ?case
    by (subst exit_axis.simps) simp
qed

lemma exit_axis_terminates:
  assumes "at3 dir a * dr \<noteq> 0"
    and out: "\<And>p. at3 p a < - 40000 \<or> at3 p a > 40000 \<Longrightarrow> GetMagneticField B p = TVector3 0 0 0"
  shows "\<exists>q. exit_axis B a dir dr pos = Some q"
proof (cases "at3 dir a * dr > 0")
  case True
  obtain n :: nat where "(40000 - at3 pos a) / (at3 dir a * dr) < real n"
    using reals_Archimedean2 by blast
  with True have "40000 - at3 pos a < real n * (at3 dir a * dr)"
    by (simp add: pos_divide_less_eq)
  from exit_axis_terminates_up [OF True _ this] out show ?thesis by blast
next
  case False
  from assms(1) False have neg: "at3 dir a * dr < 0" by linarith
  define t where "t = - (at3 dir a * dr)"
  from neg have t: "0 < t" by (simp add: t_def)
  obtain n :: nat where "(at3 pos a + 40000) / t < real n"
    using reals_Archimedean2 by blast
  with t have "at3 pos a + 40000 < real n * t"
    by (simp add: pos_divide_less_eq)
  then have "at3 pos a + 40000 < real n * - (at3 dir a * dr)"
    by (simp only: t_def)
  from exit_axis_terminates_down [OF neg _ this] out show ?thesis by blast
qed

lemma bisect_axis_terminates_steps:
  assumes d: "at3 dir a \<noteq> 0"
  shows "0 < dr \<Longrightarrow> dr \<le> minStep * 2 ^ n \<Longrightarrow>
         \<exists>r. bisect_axis B a dir minStep dr pos = Some r
              \<and> (\<forall>dr' pos'. r = Inr (dr', pos') \<longrightarrow> 0 < dr')"
proof (induction n arbitrary: dr pos)
  case 0
  then show ?case by (subst bisect_axis.simps) simp
next
  case (Suc n)
  show ?case
  proof (cases "dr > minStep")
    case False
    with Suc.prems show ?thesis by (subst bisect_axis.simps) simp
  next
    case True
    from d Suc.prems(1) have "at3 dir a * dr \<noteq> 0" by simp
    from advance_axis_terminates [OF this] obtain p1 where
      adv: "advance_axis B a dir dr pos = Some p1" by blast
    from Suc.prems have "0 < dr / 2" "dr / 2 \<le> minStep * 2 ^ n" by simp_all
    from Suc.IH [OF this] adv True show ?thesis
      by (subst bisect_axis.simps) simp
  qed
qed

lemma bisect_axis_terminates:
  assumes "at3 dir a \<noteq> 0" and "0 < minStep" and "0 < dr"
  shows "\<exists>r. bisect_axis B a dir minStep dr pos = Some r
              \<and> (\<forall>dr' pos'. r = Inr (dr', pos') \<longrightarrow> 0 < dr')"
proof -
  obtain n :: nat where "dr / minStep < 2 ^ n"
    using real_arch_pow [of 2 "dr / minStep"] by auto
  with assms(2) have "dr \<le> minStep * 2 ^ n" by (simp add: pos_divide_less_eq mult.commute)
  from bisect_axis_terminates_steps [OF assms(1,3) this] show ?thesis .
qed

lemma FindOneVolume_axis_terminates:
  assumes d: "at3 dir a \<noteq> 0" and ms: "0 < minStep"
    and out: "\<And>p. at3 p a < - 40000 \<or> at3 p a > 40000 \<Longrightarrow> GetMagneticField B p = TVector3 0 0 0"
  shows "\<exists>b. FindOneVolume_axis B a pos dir minStep = Some b"
proof -
  from bisect_axis_terminates [OF d ms, of 5 B "upd3 pos a (at3 pos a + at3 dir a * minStep / 2)"]
  obtain r where bis: "bisect_axis B a dir minStep 5 (upd3 pos a (at3 pos a + at3 dir a * minStep / 2)) = Some r"
    and pos: "\<forall>dr' pos'. r = Inr (dr', pos') \<longrightarrow> 0 < dr'"
    by auto
  show ?thesis
  proof (cases r)
    case (Inl b)
    with bis show ?thesis by (simp add: FindOneVolume_axis_def)
  next
    case (Inr s)
    obtain dr' pos' where s: "s = (dr', pos')" by (cases s)
    with Inr pos d have "at3 dir a * dr' \<noteq> 0" by simp
    from exit_axis_terminates [OF this out, of "upd3 pos' a (at3 pos' a + at3 dir a * dr' * 2)"]
    obtain q where "exit_axis B a dir dr' (upd3 pos' a (at3 pos' a + at3 dir a * dr' * 2)) = Some q"
      by blast
    with bis Inr s show ?thesis by (simp add: FindOneVolume_axis_def)
  qed
qed


lemma move_y_y: "move_y dir pos y = Inr p \<Longrightarrow> at3 p 1 = y"
  by (auto simp: move_y_def Let_def split: if_splits)

lemma advance_general_terminates_steps:
  assumes dr: "0 < dr"
  shows "at3 pos 1 < real n * dr \<Longrightarrow> \<exists>r. advance_general B dir dr pos = Some r"
proof (induction n arbitrary: pos)
  case 0
  then show ?case by (subst advance_general.simps) simp
next
  case (Suc n)
  show ?case
  proof (cases "move_y dir pos (at3 pos 1 - dr)")
    case (Inl e)
    then show ?thesis by (subst advance_general.simps) simp
  next
    case (Inr p)
    with Suc.prems have "at3 p 1 < real n * dr"
      using move_y_y [OF Inr] by (simp add: algebra_simps)
    from Suc.IH [OF this] Inr show ?thesis
      by (subst advance_general.simps) simp
  qed
qed

lemma advance_general_terminates:
  assumes "0 < dr"
  shows "\<exists>r. advance_general B dir dr pos = Some r"
proof -
  obtain n :: nat where "at3 pos 1 / dr < real n"
    using reals_Archimedean2 by blast
  with assms have "at3 pos 1 < real n * dr" by (simp add: pos_divide_less_eq)
  from advance_general_terminates_steps [OF assms this] show ?thesis .
qed

lemma exit_general_terminates_steps:
  assumes dr: "0 < dr"
    and out: "\<And>p. at3 p 1 \<le> 0 \<Longrightarrow> GetMagneticField B p = TVector3 0 0 0"
  shows "at3 pos 1 < real n * dr \<Longrightarrow> \<exists>r. exit_general B dir dr pos = Some r"
proof (induction n arbitrary: pos)
  case 0
  then have "GetMagneticField B pos = TVector3 0 0 0" by (intro out) simp
  then show ?case by (subst exit_general.simps) simp
next
  case (Suc n)
  show ?case
  proof (cases "move_y dir pos (at3 pos 1 - dr)")
    case (Inl e)
    then show ?thesis by (subst exit_general.simps) simp
  next
    case (Inr p)
    with Suc.prems have "at3 p 1 < real n * dr"
      using move_y_y [OF Inr] by (simp add: algebra_simps)
    from Suc.IH [OF this] Inr show ?thesis
      by (subst exit_general.simps) simp
  qed
qed

lemma exit_general_terminates:
  assumes "0 < dr"
    and out: "\<And>p. at3 p 1 \<le> 0 \<Longrightarrow> GetMagneticField B p = TVector3 0 0 0"
  shows "\<exists>r. exit_general B dir dr pos = Some r"
proof -
  obtain n :: nat where "at3 pos 1 / dr < real n"
    using reals_Archimedean2 by blast
  with assms(1) have "at3 pos 1 < real n * dr" by (simp add: pos_divide_less_eq)
  from exit_general_terminates_steps [OF assms(1) out this] show ?thesis by blast
qed

lemma bisect_general_terminates_steps:
  "0 < dr \<Longrightarrow> dr \<le> minStep * 2 ^ n \<Longrightarrow>
     \<exists>r. bisect_general B dir minStep dr pos = Some r
          \<and> (\<forall>dr' pos'. r = Inr (Inr (dr', pos')) \<longrightarrow> 0 < dr')"
proof (induction n arbitrary: dr pos)
  case 0
  then show ?case by (subst bisect_general.simps) simp
next
  case (Suc n)
  show ?case
  proof (cases "dr > minStep")
    case False
    with Suc.prems show ?thesis by (subst bisect_general.simps) simp
  next
    case True
    from advance_general_terminates [OF Suc.prems(1)] obtain y where
      adv: "advance_general B dir dr pos = Some y" by blast
    from Suc.prems have half: "0 < dr / 2" "dr / 2 \<le> minStep * 2 ^ n" by simp_all
    show ?thesis
    proof (cases y)
      case (Inl e)
      with adv True show ?thesis by (subst bisect_general.simps) simp
    next
      case (Inr p1)
      show ?thesis
      proof (cases "move_y dir p1 (at3 p1 1 + dr)")
        case (Inl e)
        with adv Inr True show ?thesis by (subst bisect_general.simps) simp
      next
        case mv: (Inr p2)
        from Suc.IH [OF half, of p2] adv Inr mv True show ?thesis
          by (subst bisect_general.simps) simp
      qed
    qed
  qed
qed

lemma bisect_general_terminates:
  assumes "0 < minStep" and "0 < dr"
  shows "\<exists>r. bisect_general B dir minStep dr pos = Some r
              \<and> (\<forall>dr' pos'. r = Inr (Inr (dr', pos')) \<longrightarrow> 0 < dr')"
proof -
  obtain n :: nat where "dr / minStep < 2 ^ n"
    using real_arch_pow [of 2 "dr / minStep"] by auto
  with assms(1) have "dr \<le> minStep * 2 ^ n" by (simp add: pos_divide_less_eq mult.commute)
  from bisect_general_terminates_steps [OF assms(2) this] show ?thesis .
qed

lemma FindOneVolume_general_terminates:
  assumes ms: "0 < minStep"
    and out: "\<And>p. at3 p 1 \<le> 0 \<Longrightarrow> GetMagneticField B p = TVector3 0 0 0"
  shows "\<exists>r. FindOneVolume_general B pos dir minStep = Some r"
proof -
  from bisect_general_terminates [OF ms, of 5 B dir "upd3 pos 1 (at3 pos 1 - minStep / 2)"]
  obtain r where bis: "bisect_general B dir minStep 5 (upd3 pos 1 (at3 pos 1 - minStep / 2)) = Some r"
    and pos: "\<forall>dr' pos'. r = Inr (Inr (dr', pos')) \<longrightarrow> 0 < dr'"
    by auto
  show ?thesis
  proof (cases r)
    case (Inl e)
    with bis show ?thesis by (simp add: FindOneVolume_general_def)
  next
    case (Inr s)
    show ?thesis
    proof (cases s)
      case (Inl b)
      with bis Inr show ?thesis by (simp add: FindOneVolume_general_def)
    next
      case br: (Inr t)
      obtain dr' pos' where t: "t = (dr', pos')" by (cases t)
      with Inr br pos have dr': "0 < dr'" by simp
      show ?thesis
      proof (cases "move_y dir pos' (at3 pos' 1 - dr' * 2)")
        case (Inl e)
        with bis Inr br t show ?thesis by (simp add: FindOneVolume_general_def)
      next
        case mv: (Inr bIn)
        from exit_general_terminates [OF dr' out, of dir bIn] obtain y where
          "exit_general B dir dr' bIn = Some y" by blast
        with bis Inr br t mv show ?thesis
          by (cases y) (simp_all add: FindOneVolume_general_def)
      qed
    qed
  qed
qed

lemma FindOneVolume_terminates:
  assumes d: "dir \<noteq> TVector3 0 0 0" and ms: "0 < minStep"
    and out: "\<And>p. outside_domain dir p \<Longrightarrow> GetMagneticField B p = TVector3 0 0 0"
  shows "\<exists>r. FindOneVolume B pos dir minStep = Some r"
proof -
  obtain dx dy dz where dir: "dir = TVector3 dx dy dz" by (cases dir)
  consider (x) "dy = 0 \<and> dz = 0" | (z) "\<not> (dy = 0 \<and> dz = 0)" "dx = 0 \<and> dy = 0"
    | (g) "\<not> (dy = 0 \<and> dz = 0)" "\<not> (dx = 0 \<and> dy = 0)"
    by blast
  then show ?thesis
  proof cases
    case x
    with d dir have nz: "at3 dir 0 \<noteq> 0" by simp
    from x dir out have "\<And>p. at3 p 0 < - 40000 \<or> at3 p 0 > 40000 \<Longrightarrow> GetMagneticField B p = TVector3 0 0 0"
      by (simp add: outside_domain_def)
    from FindOneVolume_axis_terminates [OF nz ms this, of pos] x dir show ?thesis
      by (auto simp: FindOneVolume_def)
  next
    case z
    with dir have nz: "at3 dir 2 \<noteq> 0" by simp
    from z dir out have "\<And>p. at3 p 2 < - 40000 \<or> at3 p 2 > 40000 \<Longrightarrow> GetMagneticField B p = TVector3 0 0 0"
      by (simp add: outside_domain_def)
    from FindOneVolume_axis_terminates [OF nz ms this, of pos] z dir show ?thesis
      by (auto simp: FindOneVolume_def)
  next
    case g
    have "GetMagneticField B p = TVector3 0 0 0" if "at3 p 1 \<le> 0" for p
    proof (rule out)
      from that g dir show "outside_domain dir p" by (auto simp: outside_domain_def)
    qed
    from FindOneVolume_general_terminates [OF ms this, of pos dir] g dir show ?thesis
      by (auto simp: FindOneVolume_def)
  qed
qed

subsection \<open>The scan for the exit\<close>

lemma exit_axis_nonzero_everywhere:
  assumes nz: "\<And>x y z. B x y z \<noteq> TVector3 0 0 0"
  shows "exit_axis B a dir dr pos = None"
proof (cases "exit_axis B a dir dr pos")
  case (Some q)
  from exit_axis_result [OF this] nz show ?thesis by (simp add: GetMagneticField_def)
qed simp

lemma bisect_uniform:
  "bisect_axis uniform_field 0 (TVector3 1 0 0) (1/100) 5 (TVector3 (1/200) 0 0)
    = Some (Inr (5 / 512, TVector3 (1/200 - 10 + 5/256) 0 0))"
  by (simp add: bisect_axis.simps advance_axis.simps GetMagneticField_def uniform_field_def)

text \<open>
  Claim C5 at a failing input. In the field \<open>(0, 0, 1)\<close> everywhere, from the origin
  along \<open>+x\<close> with \<open>minStep = 0.01\<close>, the loop \<open>while (dr > minStep)\<close> ends after nine
  halvings, and the scan for the exit, which tests the field only and never the domain,
  does not end: \<open>FindOneVolume\<close> does not return.
\<close>

theorem FindOneVolume_uniform_field_never_returns:
  "FindOneVolume uniform_field (TVector3 0 0 0) (TVector3 1 0 0) (1/100) = None"
  by (simp add: FindOneVolume_def FindOneVolume_axis_def bisect_uniform exit_axis_nonzero_everywhere uniform_field_def)


subsection \<open>A direction that is the zero vector\<close>

lemma advance_axis_still:
  assumes "advance_axis B a dir dr pos = Some p" and "at3 dir a = 0"
  shows "p = pos"
  by (rule advance_axis.raw_induct
        [where P = "\<lambda>B a dir dr pos p. at3 dir a = 0 \<longrightarrow> p = pos", OF _ assms(1), rule_format])
     (auto split: if_splits simp: assms(2))

lemma exit_axis_still:
  assumes "exit_axis B a dir dr pos = Some q" and "at3 dir a = 0"
  shows "q = pos"
  by (rule exit_axis.raw_induct
        [where P = "\<lambda>B a dir dr pos q. at3 dir a = 0 \<longrightarrow> q = pos", OF _ assms(1), rule_format])
     (auto split: if_splits simp: assms(2))

lemma bisect_axis_still:
  assumes "bisect_axis B a dir minStep dr pos = Some r" and "at3 dir a = 0"
    and "- 40000 \<le> at3 pos a" and "at3 pos a \<le> 40000"
  shows "\<exists>dr'. r = Inr (dr', pos)"
proof (rule bisect_axis.raw_induct
        [where P = "\<lambda>B a dir minStep dr pos r.
           at3 dir a = 0 \<and> - 40000 \<le> at3 pos a \<and> at3 pos a \<le> 40000 \<longrightarrow> (\<exists>dr'. r = Inr (dr', pos))",
         OF _ assms(1), rule_format], goal_cases)
  case (1 f B a dir minStep dr pos r)
  show ?case
  proof (cases "dr > minStep")
    case False
    with 1(2) show ?thesis by auto
  next
    case True
    with 1(2) obtain p1 where adv: "advance_axis B a dir dr pos = Some p1"
      and rest: "(if at3 p1 a < - 40000 \<or> at3 p1 a > 40000 then Some (Inl [p1, TVector3 0 0 0])
                  else f B a dir minStep (dr / 2) (upd3 p1 a (at3 p1 a - at3 dir a * dr))) = Some r"
      by (auto simp: bind_eq_Some_conv)
    from advance_axis_still [OF adv] 1(3) have p1: "p1 = pos" by simp
    with rest 1(3) have "f B a dir minStep (dr / 2) pos = Some r" by simp
    from 1(1) [OF this] 1(3) show ?thesis by simp
  qed
next
  case 2
  from assms show ?case by simp
qed

lemma FindOneVolume_axis_still:
  assumes "FindOneVolume_axis B a pos dir minStep = Some b" and "at3 dir a = 0"
    and "- 40000 \<le> at3 pos a" and "at3 pos a \<le> 40000"
  shows "b = [pos, pos]"
proof -
  from assms(1) obtain r where
    bis: "bisect_axis B a dir minStep 5 (upd3 pos a (at3 pos a + at3 dir a * minStep / 2)) = Some r"
    and rest: "(case r of Inl boundary \<Rightarrow> Some boundary
         | Inr (dr, pos) \<Rightarrow>
             do {
               let pos = upd3 pos a (at3 pos a + at3 dir a * dr * 2);
               let boundaryIn = pos;
               boundaryOut \<leftarrow> exit_axis B a dir dr pos;
               Some [boundaryIn, boundaryOut]
             }) = Some b"
    by (auto simp: FindOneVolume_axis_def bind_eq_Some_conv)
  from bis assms(2) have bis': "bisect_axis B a dir minStep 5 pos = Some r" by simp
  from bisect_axis_still [OF bis' assms(2-4)] obtain dr' where r: "r = Inr (dr', pos)" by blast
  with rest assms(2) obtain q where ex: "exit_axis B a dir dr' pos = Some q" and b: "b = [pos, q]"
    by (auto simp: bind_eq_Some_conv)
  from exit_axis_still [OF ex assms(2)] b show ?thesis by simp
qed

lemma collect_volumes_still:
  assumes "collect_volumes B direction minStep acc bInt = Some r"
    and "direction = TVector3 0 0 0" and "bInt = [pos, pos]"
    and "- 40000 \<le> at3 pos 0" and "at3 pos 0 \<le> 40000"
  shows False
proof (rule collect_volumes.raw_induct
        [where P = "\<lambda>B direction minStep acc bInt r.
           direction = TVector3 0 0 0 \<and> (\<exists>pos. bInt = [pos, pos] \<and> - 40000 \<le> at3 pos 0 \<and> at3 pos 0 \<le> 40000)
             \<longrightarrow> False",
         OF _ assms(1), rule_format], goal_cases)
  case (1 f B direction minStep acc bInt r)
  then obtain pos where d0: "direction = TVector3 0 0 0" and bInt: "bInt = [pos, pos]"
    and rng: "- 40000 \<le> at3 pos 0" "at3 pos 0 \<le> 40000"
    by blast
  from 1(2) bInt d0 rng obtain y where
    fov: "FindOneVolume B pos (TVector3 0 0 0) minStep = Some y"
    and rest: "(case y of Inl e \<Rightarrow> Some (Inl e)
                | Inr bInt' \<Rightarrow> f B direction minStep (acc @ [[pos, pos]]) bInt') = Some r"
    by (auto simp: bind_eq_Some_conv outside_domain_def)
  from fov obtain b where y: "y = Inr b" and
    ax: "FindOneVolume_axis B 0 pos (TVector3 0 0 0) minStep = Some b"
    by (auto simp: FindOneVolume_def)
  from FindOneVolume_axis_still [OF ax _ rng] have "b = [pos, pos]" by simp
  with rest y have "f B direction minStep (acc @ [[pos, pos]]) [pos, pos] = Some r" by simp
  from 1(1) [OF this] d0 rng show ?case by blast
next
  case 2
  from assms show ?case by blast
qed

lemma FindFieldBoundaries_zero_direction:
  "FindFieldBoundaries B posInitial (TVector3 0 0 0) minStep = None"
proof (cases "FindFieldBoundaries B posInitial (TVector3 0 0 0) minStep")
  case (Some r)
  let ?ms = "if minStep = - 1 then 1 / 100 else minStep"
  let ?p0 = "upd3 posInitial 0 0"
  have rng: "- 40000 \<le> at3 ?p0 0" "at3 ?p0 0 \<le> 40000" by simp_all
  from Some obtain y where fov: "FindOneVolume B ?p0 (TVector3 0 0 0) ?ms = Some y"
    and rest: "(case y of Inl e \<Rightarrow> Some (Inl e)
                | Inr bInt \<Rightarrow> collect_volumes B (TVector3 0 0 0) ?ms [] bInt) = Some r"
    by (auto simp: FindFieldBoundaries_def FindFieldBoundaries_from_def bind_eq_Some_conv Let_def)
  from fov obtain b where y: "y = Inr b" and
    ax: "FindOneVolume_axis B 0 ?p0 (TVector3 0 0 0) ?ms = Some b"
    by (auto simp: FindOneVolume_def)
  from FindOneVolume_axis_still [OF ax _ rng] have "b = [?p0, ?p0]" by simp
  with rest y have "collect_volumes B (TVector3 0 0 0) ?ms [] [?p0, ?p0] = Some r" by simp
  from collect_volumes_still [OF this refl refl rng] show ?thesis ..
qed simp

lemma advance_axis_zero_direction:
  assumes "at3 dir a = 0" and "GetMagneticField B pos = TVector3 0 0 0"
    and "- 40000 \<le> at3 pos a" and "at3 pos a \<le> 40000"
  shows "advance_axis B a dir dr pos = None"
proof (cases "advance_axis B a dir dr pos")
  case (Some p)
  have False
  proof (rule advance_axis.raw_induct
        [where P = "\<lambda>B a dir dr pos p.
           at3 dir a = 0 \<and> GetMagneticField B pos = TVector3 0 0 0
             \<and> - 40000 \<le> at3 pos a \<and> at3 pos a \<le> 40000 \<longrightarrow> False",
         OF _ Some, rule_format], goal_cases)
    case (1 f B a dir dr pos p)
    from 1(2,3) have "f B a dir dr pos = Some p" by simp
    from 1(1) [OF this] 1(3) show ?case by blast
  next
    case 2
    from assms show ?case by blast
  qed
  then show ?thesis ..
qed simp

text \<open>
  Claim C9 at a failing input. For a particle whose direction is the zero vector the
  process writes no line on the error stream (the test \<open>dir[1] > 0\<close> of \<open>FindOneVolume\<close>
  does not hold) and enters the boundary trace, in the block for a direction along x. The
  test of the domain, which ends the scan for the entry for every other direction, never
  holds, since \<open>pos[0] + dir[0]*dr = pos[0]\<close>. With a step \<open>minStep < 5\<close>, the default
  included, \<open>ProcessEvent\<close> never returns, for every field, position and energy: no
  result, no error.
\<close>

theorem ProcessEvent_zero_direction_never_returns:
  assumes "minStep < 5"
  shows "FindOneVolume_error (TVector3 0 0 0) = None
       \<and> ProcessEvent k fBufferGas B minStep (ev\<lparr>Direction := TVector3 0 0 0\<rparr>) = None"
  by (simp add: FindOneVolume_error_def ProcessEvent_def FindFieldBoundaries_zero_direction)

theorem ProcessEvent_zero_direction_never_returns_witness:
  "(- 1 :: real) < 5
   \<and> FindOneVolume_error (TVector3 0 0 0) = None
   \<and> ProcessEvent REST_Physics_values None zero_field (- 1)
       \<lparr>Position = TVector3 0 0 0, Direction = TVector3 0 0 0, Energy = 42 / 10,
        GammaProbability = Inr 0\<rparr> = None"
  using ProcessEvent_zero_direction_never_returns
    [of "- 1" REST_Physics_values None zero_field
        "\<lparr>Position = TVector3 0 0 0, Direction = TVector3 0 0 0, Energy = 42 / 10,
          GammaProbability = Inr 0\<rparr>"]
  by simp

subsection \<open>A direction across y that lies on neither axis\<close>

lemma descend_y_steps:
  assumes "0 < dr"
  shows "y < real n * dr \<Longrightarrow> \<exists>y'. descend_y dr y = Some y' \<and> y' \<le> 0"
proof (induction n arbitrary: y)
  case 0
  then show ?case by (subst descend_y.simps) simp
next
  case (Suc n)
  show ?case
  proof (cases "y > 0")
    case False
    then show ?thesis by (subst descend_y.simps) simp
  next
    case True
    have "y - dr < real n * dr" using Suc.prems by (simp add: algebra_simps)
    from Suc.IH [OF this] True show ?thesis by (subst descend_y.simps) simp
  qed
qed

lemma descend_y_terminates:
  assumes "0 < dr"
  shows "\<exists>y'. descend_y dr y = Some y' \<and> y' \<le> 0"
proof -
  obtain n :: nat where "y / dr < real n" using reals_Archimedean2 by blast
  with assms have "y < real n * dr" by (simp add: pos_divide_less_eq)
  from descend_y_steps [OF assms this] show ?thesis .
qed

lemma FindFieldBoundaries_horizontal_direction:
  assumes "at3 direction 1 = 0" and "at3 direction 0 \<noteq> 0" and "at3 direction 2 \<noteq> 0"
    and "minStep < 5"
  shows "FindFieldBoundaries B posInitial direction minStep = Some (Inr [])"
proof -
  let ?ms = "if minStep = - 1 then 1 / 100 else minStep"
  from assms(4) have ms: "?ms < 5" by simp
  obtain y' where "descend_y 5 (10000 - ?ms / 2) = Some y'"
    using descend_y_terminates [of 5 "10000 - ?ms / 2"] by auto
  with ms have "FindFieldBoundaries_horizontal ?ms = Some (Inr [])"
    by (simp add: FindFieldBoundaries_horizontal_def Let_def)
  with assms(1-3) show ?thesis
    by (simp add: FindFieldBoundaries_def Let_def)
qed

section \<open>Properties of the event processing\<close>

lemma vec_at_size: "vec_at xs (int (length xs)) = Inl IndexOutOfRange"
  by (simp add: vec_at_def)

lemma ProcessEvent_body_out_of_range:
  "ProcessEvent_body k fBufferGas B ev boundaries = Inl IndexOutOfRange"
  by (simp add: ProcessEvent_body_def Let_def vec_at_size)

lemma GetMagneticField_zero_field [simp]: "GetMagneticField zero_field p = TVector3 0 0 0"
  by (simp add: GetMagneticField_def zero_field_def)

lemma advance_axis_zero_field:
  assumes s: "at3 dir a * dr > 0"
  shows "40000 - at3 pos a < real n * (at3 dir a * dr) \<Longrightarrow>
         \<exists>p. advance_axis zero_field a dir dr pos = Some p \<and> (at3 p a < - 40000 \<or> at3 p a > 40000)"
proof (induction n arbitrary: pos)
  case 0
  then show ?case by (subst advance_axis.simps) simp
next
  case (Suc n)
  show ?case
  proof (cases "- 40000 \<le> at3 pos a \<and> at3 pos a \<le> 40000")
    case False
    then show ?thesis by (subst advance_axis.simps) auto
  next
    case True
    have "40000 - at3 (upd3 pos a (at3 pos a + at3 dir a * dr)) a < real n * (at3 dir a * dr)"
      using Suc.prems by (simp add: algebra_simps)
    from Suc.IH [OF this] True show ?thesis
      by (subst advance_axis.simps) simp
  qed
qed

lemma advance_axis_zero_field_ex:
  assumes s: "at3 dir a * dr > 0"
  shows "\<exists>p. advance_axis zero_field a dir dr pos = Some p \<and> (at3 p a < - 40000 \<or> at3 p a > 40000)"
proof -
  obtain n :: nat where "(40000 - at3 pos a) / (at3 dir a * dr) < real n"
    using reals_Archimedean2 by blast
  with s have "40000 - at3 pos a < real n * (at3 dir a * dr)"
    by (simp add: pos_divide_less_eq)
  from advance_axis_zero_field [OF s this] show ?thesis .
qed

lemma FindFieldBoundaries_zero_field:
  "FindFieldBoundaries zero_field pos (TVector3 1 0 0) (- 1) = Some (Inr [])"
proof -
  let ?p0 = "upd3 (upd3 pos 0 (- 25000)) 0 (- 25000 + 1 / 200)"
  obtain p where adv: "advance_axis zero_field 0 (TVector3 1 0 0) 5 ?p0 = Some p"
    and out: "at3 p 0 < - 40000 \<or> at3 p 0 > 40000"
    using advance_axis_zero_field_ex [of "TVector3 1 0 0" 0 5 ?p0] by auto
  have bis: "bisect_axis zero_field 0 (TVector3 1 0 0) (1 / 100) 5 ?p0 = Some (Inl [p, TVector3 0 0 0])"
    using adv out by (subst bisect_axis.simps) auto
  have "FindOneVolume zero_field (upd3 pos 0 (- 25000)) (TVector3 1 0 0) (1 / 100)
          = Some (Inr [p, TVector3 0 0 0])"
    using bis by (simp add: FindOneVolume_def FindOneVolume_axis_def)
  then show ?thesis using out
    by (simp add: FindFieldBoundaries_def FindFieldBoundaries_from_def collect_volumes.simps
          outside_domain_def)
qed

text \<open>
  Claim C10 at a failing input. In a field that is zero everywhere the trace along \<open>+x\<close>
  returns no pair, \<open>NofVolumes = 0\<close>, and \<open>ProcessEvent\<close> reads \<open>boundaries[0]\<close> of the
  empty vector. The index of that read is the size of the vector for every number of
  pairs (lemma \<open>ProcessEvent_body_out_of_range\<close>), so the read is never in range.
\<close>

theorem ProcessEvent_reads_past_end:
  "ProcessEvent REST_Physics_values None zero_field (- 1)
     \<lparr>Position = TVector3 0 0 0, Direction = TVector3 1 0 0, Energy = 42 / 10,
      GammaProbability = Inr 0\<rparr>
   = Some (Inl IndexOutOfRange)"
  by (simp add: ProcessEvent_def FindFieldBoundaries_zero_field ProcessEvent_body_out_of_range)

lemma sqrt9: "sqrt 9 = 3"
  using real_sqrt_abs [of 3] by simp

lemma vadd_vscale_vscale:
  "vadd (vadd p (vscale d a)) (vscale d b) = vadd p (vscale d (a + b))"
  by (cases p; cases d) (simp add: algebra_simps)

lemma sample_point_0: "sample_point inP outP N 0 = inP"
  by (cases inP; cases outP) (simp add: sample_point_def)

lemma sample_point_Suc:
  "vadd (sample_point inP outP N i) (vscale (vsub outP inP) (real (Suc i) / real_of_int (N - 1)))
     = sample_point inP outP N (Suc i)"
proof -
  let ?D = "real_of_int (N - 1)"
  have h: "x / D = (2 * x) / (2 * D)" for x D :: real by simp
  have "real (Suc i) / ?D = (2 * real (Suc i)) / (2 * ?D)" by (rule h)
  then have "real (i * (i + 1)) / (2 * ?D) + real (Suc i) / ?D
          = (real (i * (i + 1)) + 2 * real (Suc i)) / (2 * ?D)"
    by (simp only: add_divide_distrib)
  also have "real (i * (i + 1)) + 2 * real (Suc i) = real (Suc i * (Suc i + 1))"
    by (simp add: algebra_simps)
  finally show ?thesis by (simp only: sample_point_def vadd_vscale_vscale)
qed

lemma GetFieldVector_loop:
  fixes g :: "TVector3 \<Rightarrow> real"
  assumes "m < length Bt0" and "Bt0 ! 0 = g inP"
  shows "fold (\<lambda>i (p, Bt).
                 let p = vadd p (vscale (vsub outP inP) (real i / real_of_int (N - 1)))
                 in (p, Bt[i := g p]))
              [1 ..< Suc m] (inP, Bt0)
         = (sample_point inP outP N m,
            map (\<lambda>i. if i \<le> m then g (sample_point inP outP N i) else Bt0 ! i) [0 ..< length Bt0])"
proof -
  define f where "f = (\<lambda>i (p, Bt).
                 let p = vadd p (vscale (vsub outP inP) (real i / real_of_int (N - 1)))
                 in (p, Bt[i := g p]))"
  have "fold f [1 ..< Suc m] (inP, Bt0)
         = (sample_point inP outP N m,
            map (\<lambda>i. if i \<le> m then g (sample_point inP outP N i) else Bt0 ! i) [0 ..< length Bt0])"
    using assms(1)
  proof (induction m)
    case 0
    have "map (\<lambda>i. if i \<le> 0 then g (sample_point inP outP N i) else Bt0 ! i) [0 ..< length Bt0] = Bt0"
      using assms(2) by (intro nth_equalityI) (auto simp: sample_point_0)
    then show ?case by (simp add: sample_point_0)
  next
    case (Suc m)
    then have m: "m < length Bt0" by simp
    have upd: "(map (\<lambda>i. if i \<le> m then g (sample_point inP outP N i) else Bt0 ! i) [0 ..< length Bt0])
                 [Suc m := g (sample_point inP outP N (Suc m))]
               = map (\<lambda>i. if i \<le> Suc m then g (sample_point inP outP N i) else Bt0 ! i) [0 ..< length Bt0]"
      using Suc.prems by (intro nth_equalityI) (auto simp: nth_list_update)
    have "fold f [1 ..< Suc (Suc m)] (inP, Bt0) = f (Suc m) (fold f [1 ..< Suc m] (inP, Bt0))"
      by simp
    also have "\<dots> = f (Suc m) (sample_point inP outP N m,
            map (\<lambda>i. if i \<le> m then g (sample_point inP outP N i) else Bt0 ! i) [0 ..< length Bt0])"
      by (simp only: Suc.IH [OF m])
    also have "\<dots> = (sample_point inP outP N (Suc m),
            map (\<lambda>i. if i \<le> Suc m then g (sample_point inP outP N i) else Bt0 ! i) [0 ..< length Bt0])"
      by (simp only: f_def Let_def prod.case sample_point_Suc upd)
    finally show ?case .
  qed
  then show ?thesis by (simp only: f_def)
qed

lemma GetFieldVector_samples:
  assumes "0 < N"
  shows "GetFieldVector B direction inP outP N
           = Inr (map (\<lambda>i. \<bar>Perp (GetMagneticField B (sample_point inP outP N i)) direction\<bar>)
                      [0 ..< nat N])"
proof -
  let ?g = "\<lambda>p. \<bar>Perp (GetMagneticField B p) direction\<bar>"
  let ?Bt0 = "(replicate (nat N) 0)[0 := ?g inP]"
  obtain m where m: "nat N = Suc m" using assms by (cases "nat N") auto
  have len: "m < length ?Bt0" using m by simp
  have z: "?Bt0 ! 0 = ?g inP" using m by simp
  have l: "length ?Bt0 = nat N" by simp
  have "map (\<lambda>i. if i \<le> m then ?g (sample_point inP outP N i) else ?Bt0 ! i) [0 ..< nat N]
          = map (\<lambda>i. ?g (sample_point inP outP N i)) [0 ..< nat N]"
  proof (rule map_cong [OF refl])
    fix i assume "i \<in> set [0 ..< nat N]"
    with m have "i \<le> m" by auto
    then show "(if i \<le> m then ?g (sample_point inP outP N i) else ?Bt0 ! i)
                 = ?g (sample_point inP outP N i)"
      by (simp only: if_True)
  qed
  then have "map (\<lambda>i. if i \<le> m then ?g (sample_point inP outP N i) else ?Bt0 ! i) [0 ..< length ?Bt0]
          = map (\<lambda>i. ?g (sample_point inP outP N i)) [0 ..< nat N]"
    by (simp only: l)
  with GetFieldVector_loop [of m ?Bt0 ?g inP outP N, OF len z]
  have "fold (\<lambda>i (p, Bt).
                 let p = vadd p (vscale (vsub outP inP) (real i / real_of_int (N - 1)))
                 in (p, Bt[i := ?g p]))
              [1 ..< nat N] (inP, ?Bt0)
         = (sample_point inP outP N m, map (\<lambda>i. ?g (sample_point inP outP N i)) [0 ..< nat N])"
    by (simp only: m)
  with assms show ?thesis
    by (simp add: GetFieldVector_def Let_def)
qed

text \<open>
  Claim C4 at a failing input. The field \<open>(0, x, 0)\<close> has transverse magnitude \<open>\<bar>x\<bar>\<close>
  for the direction \<open>+x\<close>, so each sample shows where it was taken. From \<open>(0,0,0)\<close> to
  \<open>(2,0,0)\<close> with \<open>N = 3\<close> the samples are taken at \<open>x = 0, 1, 3\<close>: the third one lies
  beyond the exit point, where three points in equal distances end at \<open>x = 2\<close>.
\<close>

theorem GetFieldVector_third_sample_beyond_exit:
  "GetFieldVector probe_field (TVector3 1 0 0) (TVector3 0 0 0) (TVector3 2 0 0) 3 = Inr [0, 1, 3]"
  by (simp add: GetFieldVector_def Let_def probe_field_def GetMagneticField_def Perp_def Perp2_def
        Mag2_def numeral_3_eq_3 sqrt9)

lemma GammaTransmissionProbability_vec_zero_length:
  "GammaTransmissionProbability_vec k fBufferGas Ea Bt ma 0 = Inl NonFinite"
  by (simp add: GammaTransmissionProbability_vec_def Let_def)

lemma fold_Fill_axis:
  "fNbins (fold (\<lambda>i h. Fill h (x i) (w i)) is h) = fNbins h
   \<and> fXmin (fold (\<lambda>i h. Fill h (x i) (w i)) is h) = fXmin h
   \<and> fXmax (fold (\<lambda>i h. Fill h (x i) (w i)) is h) = fXmax h
   \<and> length (fArray (fold (\<lambda>i h. Fill h (x i) (w i)) is h)) = length (fArray h)"
  by (induction "is" arbitrary: h) (simp_all add: Fill_def Let_def)

lemma FindBin_fold_Fill:
  "FindBin (fold (\<lambda>i h. Fill h (x i) (w i)) is h) v = FindBin h v"
  by (simp add: FindBin_def fold_Fill_axis)

lemma FindBin_new_low: "lo < hi \<Longrightarrow> FindBin (TH1F_new n lo hi) lo = 1"
  by (simp add: FindBin_def TH1F_new_def Let_def)

lemma FindBin_new_up: "FindBin (TH1F_new n lo hi) hi = (if hi < lo then 0 else (if n \<le> 0 then 1 else n) + 1)"
  by (simp add: FindBin_def TH1F_new_def Let_def)

lemma GammaTransmissionProbability_vec_finite:
  assumes "Ea \<noteq> 0" and "2 \<le> length Bt" and "0 < Lcoh"
  shows "\<exists>v. GammaTransmissionProbability_vec k fBufferGas Ea Bt ma Lcoh = Inr v"
  using assms
  by (simp add: GammaTransmissionProbability_vec_def Let_def FindBin_fold_Fill FindBin_new_low FindBin_new_up)

lemma GetFieldVector_default:
  "\<exists>Bt. GetFieldVector B direction inP outP 0 = Inr Bt \<and> length Bt = 10000"
proof -
  have len: "length (snd (fold (\<lambda>i (inP, Bt). (f i inP, Bt[i := g i inP])) is (p, xs))) = length xs"
    for f :: "nat \<Rightarrow> TVector3 \<Rightarrow> TVector3" and g :: "nat \<Rightarrow> TVector3 \<Rightarrow> real" and "is" p xs
    by (induction "is" arbitrary: p xs) simp_all
  show ?thesis
    by (simp add: GetFieldVector_def Let_def case_prod_beta len)
qed


lemma GammaTransmissionProbability_vec_empty:
  assumes "0 < Lcoh"
  shows "GammaTransmissionProbability_vec k fBufferGas Ea [] ma Lcoh = Inr 0"
proof -
  let ?h = "TH1F_new 0 0 (Lcoh / 1000)"
  from assms have L: "0 < Lcoh / 1000" by simp
  have bmin: "FindBin ?h 0 = 1" by (rule FindBin_new_low [OF L])
  have bmax: "FindBin ?h (Lcoh / 1000) = 2" using L by (simp add: FindBin_new_up)
  have up: "[Suc 0 ..< 2] = [Suc 0]" by (simp add: upt_rec)
  have I: "Integral ?h 1 2 = 0"
    by (simp add: Integral_def TH1F_new_def Let_def up)
  show ?thesis
    unfolding GammaTransmissionProbability_vec_def Let_def
    using L by (simp add: bmin bmax I)
qed

lemma segment_probability_length:
  assumes "GetFieldVector B direction b0 b1 0 = Inr Bt"
  shows "segment_probability k fBufferGas B direction Ea ma Bvec [b0, b1] =
           (TVectorD_assign Bvec Bt,
            GammaTransmissionProbability_vec k fBufferGas Ea (TVectorD_assign Bvec Bt) ma
              (if at3 b0 0 = at3 b1 0 \<and> at3 b0 1 = at3 b1 1 then \<bar>at3 b0 2 - at3 b1 2\<bar>
               else \<bar>at3 b0 1 - at3 b1 1\<bar>))"
  using assms by (simp add: segment_probability_def vec_at_def Let_def)

lemma segment_probability_profile_stays_empty:
  "fst (segment_probability k fBufferGas B direction Ea ma [] seg) = []"
proof -
  have "TVectorD_assign [] Bt = []" if "GetFieldVector B direction p q 0 = Inr Bt" for p q Bt
    using that GetFieldVector_default [of B direction p q] by (auto simp: TVectorD_assign_def)
  then show ?thesis
    by (auto simp: segment_probability_def Let_def split: sum.splits)
qed

lemma segment_probability_along_x:
  assumes "at3 b0 1 = at3 b1 1" and "at3 b0 0 \<noteq> at3 b1 0"
  shows "snd (segment_probability k fBufferGas B direction Ea ma Bvec [b0, b1]) = Inl NonFinite"
proof -
  obtain Bt where "GetFieldVector B direction b0 b1 0 = Inr Bt"
    using GetFieldVector_default by blast
  with assms show ?thesis
    by (simp add: segment_probability_def vec_at_def Let_def
          GammaTransmissionProbability_vec_zero_length)
qed

text \<open>
  Claim C6 at a failing input. For the pair from \<open>(0,0,0)\<close> to \<open>(10,0,0)\<close>, crossed
  along x, the first \<open>if\<close> computes the probability with the length \<open>\<bar>\<Delta>x\<bar> = 10\<close>; the
  \<open>else\<close> of the second \<open>if\<close> then replaces it by the one computed with \<open>\<bar>\<Delta>y\<bar> = 0\<close>,
  which is NaN, and so is the sum. With the length 10 the profile that \<open>GetFieldVector\<close>
  samples has a finite probability. (The vector \<open>B\<close> that reaches the overload is empty
  in every round, lemma \<open>segment_probability_profile_stays_empty\<close>; the length 0 gives
  NaN for every profile.)
\<close>

theorem ProcessEvent_probability_along_x:
  "ProcessEvent_probability REST_Physics_values None uniform_field
     \<lparr>Position = TVector3 (- 5) 0 0, Direction = TVector3 1 0 0, Energy = 42 / 10,
      GammaProbability = Inr 0\<rparr>
     [[TVector3 0 0 0, TVector3 10 0 0]] = Inl NonFinite
   \<and> (\<exists>Bt v. GetFieldVector uniform_field (TVector3 1 0 0) (TVector3 0 0 0) (TVector3 10 0 0) 0 = Inr Bt
          \<and> GammaTransmissionProbability_vec REST_Physics_values None (42 / 10) Bt 1 10 = Inr v)"
proof -
  obtain Bt where Bt: "GetFieldVector uniform_field (TVector3 1 0 0) (TVector3 0 0 0) (TVector3 10 0 0) 0 = Inr Bt"
    and len: "length Bt = 10000"
    using GetFieldVector_default by blast
  from len obtain v where
    v: "GammaTransmissionProbability_vec REST_Physics_values None (42 / 10) Bt 1 10 = Inr v"
    using GammaTransmissionProbability_vec_finite [of "42 / 10" Bt 10 REST_Physics_values None 1]
    by auto
  have "snd (segment_probability REST_Physics_values None uniform_field (TVector3 1 0 0) (42 / 10) 1 []
               [TVector3 0 0 0, TVector3 10 0 0]) = Inl NonFinite"
    by (rule segment_probability_along_x) simp_all
  then have "ProcessEvent_probability REST_Physics_values None uniform_field
     \<lparr>Position = TVector3 (- 5) 0 0, Direction = TVector3 1 0 0, Energy = 42 / 10,
      GammaProbability = Inr 0\<rparr>
     [[TVector3 0 0 0, TVector3 10 0 0]] = Inl NonFinite"
    by (simp add: ProcessEvent_probability_def add_res_def case_prod_beta Let_def)
  with Bt v show ?thesis by blast
qed

section \<open>Properties of the version with observables\<close>

lemma transmission_one:
  assumes "fBufferGas_v2 pr = None \<or> fBufferGasAdditionalLength pr \<le> 0"
  shows "transmission (ProcessEvent_v2 c pr ev) = 1"
  using assms by (auto simp: ProcessEvent_v2_def Let_def split: option.splits)

lemma InitProcess_v2_no_gas:
  "fBufferGas_v2 pr = None \<Longrightarrow> fBufferGasAdditionalLength (InitProcess_v2 pr) = 0"
  by (simp add: InitProcess_v2_def)

lemma transmission_value:
  assumes "fBufferGas_v2 pr = Some g" and "fBufferGasAdditionalLength pr > 0"
    and "length (GetFieldBoundaries c (Position_v2 ev) (Direction_v2 ev)) = 2"
  shows "transmission (ProcessEvent_v2 c pr ev) =
           exp (- (GetPhotonAbsorptionLength g (Energy_v2 ev)
                   * coherenceLength (ProcessEvent_v2 c pr ev) * units_cm c))"
  using assms by (simp add: ProcessEvent_v2_def Let_def)

lemma probability_value:
  "probability (ProcessEvent_v2 c pr ev) =
     (let trackBounds = GetFieldBoundaries c (Position_v2 ev) (Direction_v2 ev)
      in if length trackBounds = 2
         then GammaTransmissionProbability_field c
                (GetTransversalComponentAlongPath c (trackBounds ! 0) (trackBounds ! 1) (fIntegrationStep pr))
                (fIntegrationStep pr) (Energy_v2 ev) (Mass_v2 ev)
         else 0)"
  by (simp add: ProcessEvent_v2_def Let_def)

lemma size_minus_one_3: "size_minus_one [a, b, c] = 2"
  by (simp add: size_minus_one_def)

text \<open>
  Claim C7 at a failing input. A buffer gas with absorption 1 per cm, an additional
  length of 10 mm, an integration step of 50 mm and a profile of three samples
  (\<open>lCoh = 100\<close> mm): the transmission is \<open>exp (- 10)\<close>, computed from the 100 mm inside the
  field, and not \<open>exp (- 1)\<close>, which the 10 mm of additional length give. The additional
  length only decides, by its sign, whether the transmission is computed at all.
\<close>

theorem transmission_from_coherence_length:
  "transmission
     (ProcessEvent_v2
        \<lparr>GetFieldBoundaries = (\<lambda>pos dir. [TVector3 0 0 0, TVector3 0 0 100]),
         GetTransversalComponentAlongPath = (\<lambda>from to step. [2, 2, 2]),
         GammaTransmissionProbability_field = (\<lambda>bProfile step Ea ma. 0),
         units_cm = 1 / 10\<rparr>
        (InitProcess_v2
           \<lparr>fBufferGas_v2 = Some \<lparr>GetPhotonMass = (\<lambda>Ea. 0), GetPhotonAbsorptionLength = (\<lambda>Ea. 1)\<rparr>,
            fBufferGasAdditionalLength = 10, fIntegrationStep = 50\<rparr>)
        \<lparr>Position_v2 = TVector3 0 0 (- 10), Direction_v2 = TVector3 0 0 1, Energy_v2 = 42 / 10,
         Mass_v2 = 0\<rparr>)
   = exp (- 10)
   \<and> exp (- 10) \<noteq> exp (- (1 * 10 * (1 / 10)) :: real)"
  by (simp add: ProcessEvent_v2_def InitProcess_v2_def Let_def size_minus_one_3)


section \<open>Properties of the conversion probability of a field profile\<close>

subsection \<open>The histogram integral is the sum of the samples\<close>

lemma sum_list_update_add:
  "j < length ys \<Longrightarrow> sum_list (ys[j := ys ! j + w]) = sum_list ys + (w :: real)"
  by (induction ys arbitrary: j) (auto split: nat.splits)

lemma FindBin_range:
  assumes "wf_hist h" and "fXmin h \<le> x"
  shows "1 \<le> FindBin h x \<and> FindBin h x \<le> fNbins h + 1"
proof (cases "x < fXmax h")
  case False
  with assms show ?thesis by (simp add: FindBin_def wf_hist_def)
next
  case True
  let ?t = "real_of_int (fNbins h) * (x - fXmin h) / (fXmax h - fXmin h)"
  from assms True have d: "0 < fXmax h - fXmin h" and n: "0 < real_of_int (fNbins h)"
    by (simp_all add: wf_hist_def)
  have "0 \<le> ?t" using assms d n by simp
  then have lo: "0 \<le> \<lfloor>?t\<rfloor>" by simp
  have "(x - fXmin h) / (fXmax h - fXmin h) < 1" using True d by simp
  then have "real_of_int (fNbins h) * ((x - fXmin h) / (fXmax h - fXmin h)) < real_of_int (fNbins h) * 1"
    using n by (rule mult_strict_left_mono)
  then have "?t < real_of_int (fNbins h)" by simp
  then have hi: "\<lfloor>?t\<rfloor> < fNbins h" by (simp add: floor_less_iff)
  from lo hi assms True show ?thesis by (simp add: FindBin_def)
qed

lemma wf_hist_Fill: "wf_hist h \<Longrightarrow> wf_hist (Fill h x w)"
  by (simp add: wf_hist_def Fill_def Let_def)

lemma cells_Fill:
  assumes "wf_hist h" and "fXmin h \<le> x"
  shows "cells (Fill h x w) = cells h + w"
proof -
  from FindBin_range [OF assms] obtain b where b: "nat (FindBin h x) = Suc b"
    and len: "Suc b < length (fArray h)"
    using assms(1) by (cases "nat (FindBin h x)") (auto simp: wf_hist_def)
  from len obtain a ys where xs: "fArray h = a # ys" and b': "b < length ys"
    by (cases "fArray h") auto
  then show ?thesis
    by (simp add: cells_def Fill_def Let_def b sum_list_update_add)
qed

lemma cells_fold_Fill:
  assumes "wf_hist h" and "\<And>i. i \<in> set is \<Longrightarrow> fXmin h \<le> x i"
  shows "cells (fold (\<lambda>i h. Fill h (x i) (w i)) is h) = cells h + sum_list (map w is)"
  using assms
proof (induction "is" arbitrary: h)
  case Nil
  then show ?case by simp
next
  case (Cons i "is")
  have "fXmin (Fill h (x i) (w i)) = fXmin h" by (simp add: Fill_def Let_def)
  with Cons.prems have "\<And>j. j \<in> set is \<Longrightarrow> fXmin (Fill h (x i) (w i)) \<le> x j" by simp
  from Cons.IH [OF wf_hist_Fill [OF Cons.prems(1)] this] cells_Fill [OF Cons.prems(1), of "x i" "w i"]
    Cons.prems(2) [of i]
  show ?case by simp
qed

lemma Integral_all:
  assumes "wf_hist h"
  shows "Integral h 1 (fNbins h + 1) = cells h"
proof -
  have "map ((!) (fArray h)) [1 ..< length (fArray h)] = drop 1 (map ((!) (fArray h)) [0 ..< length (fArray h)])"
    by (simp add: drop_map)
  also have "\<dots> = drop 1 (fArray h)" by (simp only: map_nth)
  also have "\<dots> = tl (fArray h)" by (simp add: drop_Suc)
  finally have m: "sum_list (map ((!) (fArray h)) [1 ..< length (fArray h)]) = cells h"
    by (simp only: cells_def)
  from assms have "nat (fNbins h + 1) + 1 = length (fArray h)" and "nat 1 = (1 :: nat)"
    by (auto simp: wf_hist_def)
  then have r: "[nat 1 ..< nat (fNbins h + 1) + 1] = [1 ..< length (fArray h)]"
    by (simp only:)
  from assms have "Integral h 1 (fNbins h + 1)
      = sum_list (map ((!) (fArray h)) [nat 1 ..< nat (fNbins h + 1) + 1])"
    by (simp add: Integral_def Let_def wf_hist_def del: upt_Suc)
  with r m show ?thesis by (simp only:)
qed

lemma wf_hist_new: "lo < hi \<Longrightarrow> wf_hist (TH1F_new n lo hi)"
  by (simp add: wf_hist_def TH1F_new_def Let_def)

lemma cells_new: "cells (TH1F_new n lo hi) = 0"
  by (simp add: cells_def TH1F_new_def Let_def sum_list_replicate)

lemma Integral_fold_Fill_new:
  assumes "lo < hi" and "1 \<le> n" and "\<And>i. i \<in> set is \<Longrightarrow> lo \<le> x i"
  shows "Integral (fold (\<lambda>i h. Fill h (x i) (w i)) is (TH1F_new n lo hi)) 1 (n + 1) = sum_list (map w is)"
proof -
  let ?h = "fold (\<lambda>i h. Fill h (x i) (w i)) is (TH1F_new n lo hi)"
  have wf: "wf_hist ?h"
    using wf_hist_new [OF assms(1), of n] fold_Fill_axis [of x w "is" "TH1F_new n lo hi"]
    by (simp add: wf_hist_def)
  have nb: "fNbins ?h = n" using assms(2) by (simp add: fold_Fill_axis TH1F_new_def Let_def)
  have "fXmin (TH1F_new n lo hi) = lo" by (simp add: TH1F_new_def Let_def)
  with assms(3) have "\<And>i. i \<in> set is \<Longrightarrow> fXmin (TH1F_new n lo hi) \<le> x i" by simp
  from cells_fold_Fill [OF wf_hist_new [OF assms(1)] this] Integral_all [OF wf] nb
  show ?thesis by (simp add: cells_new)
qed

lemma sum_list_upt_sum: "sum_list (map f [0 ..< n]) = (\<Sum>i<n. f i)"
  by (simp add: interv_sum_list_conv_sum_set_nat atLeast0LessThan)

lemma GammaTransmissionProbability_vec_value:
  fixes B :: "real list" and ma Ea Lcoh :: real
    and fBufferGas :: "TRestAxionBufferGas option" and k :: REST_Physics
  assumes "Ea \<noteq> 0" and "2 \<le> length B" and "0 < Lcoh"
  defines "n \<equiv> length B"
  defines "L \<equiv> Lcoh / 1000"
  defines "q \<equiv> (ma * ma - photonMass_of fBufferGas Ea * photonMass_of fBufferGas Ea) / 2 / Ea / 1000"
  defines "GL \<equiv> Gamma_of fBufferGas Ea * L * 100"
  defines "t \<equiv> (\<lambda>i. real i / real (n - 1))"
  shows "GammaTransmissionProbability_vec k fBufferGas Ea B ma Lcoh =
     Inr ((lightSpeed k / naturalElectron k * (1 / 10 ^ 9) / 2) * (lightSpeed k / naturalElectron k * (1 / 10 ^ 9) / 2) * (1 / 10 ^ 20) *
          (((\<Sum>i<n. B ! i * exp ((GL / 2) * (t i - 1)) * cos (- L * PhMeterIneV k * t i * q)) * L / real n)\<^sup>2
         + ((\<Sum>i<n. B ! i * exp ((GL / 2) * (t i - 1)) * sin (- L * PhMeterIneV k * t i * q)) * L / real n)\<^sup>2))"
proof -
  have n2: "2 \<le> n" using assms by simp
  have L: "0 < L" using assms by simp
  have N: "real_of_int (int n - 1) = real (n - 1)" using n2 by (simp add: of_nat_diff)
  have nat1: "nat (int n - 1 + 1) = n" by simp
  have ind: "\<And>i. i \<in> set [0 ..< n] \<Longrightarrow> 0 \<le> L * (real i / real (n - 1))"
    using L by simp
  have nn: "1 \<le> int n - 1 + 1" using n2 by simp
  have IX: "\<And>w. Integral (fold (\<lambda>i h. Fill h (L * (real i / real (n - 1))) (w i)) [0 ..< n]
                       (TH1F_new (int n - 1 + 1) 0 L)) 1 (int n - 1 + 1 + 1) = (\<Sum>i<n. w i)"
  proof -
    fix w :: "nat \<Rightarrow> real"
    have "Integral (fold (\<lambda>i h. Fill h (L * (real i / real (n - 1))) (w i)) [0 ..< n]
                       (TH1F_new (int n - 1 + 1) 0 L)) 1 (int n - 1 + 1 + 1) = sum_list (map w [0 ..< n])"
      by (rule Integral_fold_Fill_new [OF L nn]) (rule ind)
    then show "Integral (fold (\<lambda>i h. Fill h (L * (real i / real (n - 1))) (w i)) [0 ..< n]
                       (TH1F_new (int n - 1 + 1) 0 L)) 1 (int n - 1 + 1 + 1) = (\<Sum>i<n. w i)"
      by (simp only: sum_list_upt_sum)
  qed
  have bmin: "\<And>w. FindBin (fold (\<lambda>i h. Fill h (L * (real i / real (n - 1))) (w i)) [0 ..< n]
                       (TH1F_new (int n - 1 + 1) 0 L)) 0 = 1"
    using L by (simp add: FindBin_fold_Fill FindBin_new_low)
  have bmax: "\<And>w. FindBin (fold (\<lambda>i h. Fill h (L * (real i / real (n - 1))) (w i)) [0 ..< n]
                       (TH1F_new (int n - 1 + 1) 0 L)) L = int n - 1 + 1 + 1"
    using L n2 by (simp add: FindBin_fold_Fill FindBin_new_up)
  have d: "real_of_int (int n - 1 + 1 + 1 - 1) = real n" by simp
  show ?thesis
    unfolding GammaTransmissionProbability_vec_def Let_def
    unfolding n_def [symmetric] L_def [symmetric] 
    unfolding q_def [symmetric] GL_def [symmetric] N nat1 bmin bmax IX d
    using n2 assms(1) L by (simp add: t_def power2_eq_square)
qed


subsection \<open>The mean of a geometric progression\<close>

lemma exp_quotient_limit:
  fixes z :: complex
  assumes "z \<noteq> 0"
  shows "(\<lambda>m. (exp (z / of_nat m) - 1) / (z / of_nat m)) \<longlonglongrightarrow> 1"
proof -
  have d: "((\<lambda>h. (exp (0 + h) - exp 0) / h) \<longlongrightarrow> exp (0::complex)) (at 0)"
    using DERIV_exp [of "0::complex"] by (simp only: DERIV_def)
  have z0: "(\<lambda>m. z / of_nat m) \<longlonglongrightarrow> 0"
    using tendsto_mult_right_zero [OF lim_inverse_n, of z] by (simp add: divide_inverse)
  have ne: "eventually (\<lambda>m. z / of_nat m \<noteq> 0) sequentially"
    using eventually_gt_at_top [of "0::nat"] by eventually_elim (use assms in simp)
  have "filterlim (\<lambda>m. z / of_nat m) (at 0) sequentially"
    using z0 ne by (simp add: filterlim_at)
  from filterlim_compose [OF d this] show ?thesis by simp
qed

lemma geometric_mean_limit:
  fixes z :: complex
  assumes "z \<noteq> 0"
  shows "(\<lambda>m. (\<Sum>i<Suc m. exp (z / of_nat m) ^ i) / of_nat (Suc m)) \<longlonglongrightarrow> (exp z - 1) / z"
proof -
  let ?w = "\<lambda>m::nat. z / of_nat m"
  let ?Q = "\<lambda>m. (exp (?w m) - 1) / ?w m"
  have Q: "?Q \<longlonglongrightarrow> 1" by (rule exp_quotient_limit [OF assms])
  have w0: "?w \<longlonglongrightarrow> 0"
    using tendsto_mult_right_zero [OF lim_inverse_n, of z] by (simp add: divide_inverse)
  have num: "(\<lambda>m. exp (z + ?w m) - 1) \<longlonglongrightarrow> exp z - 1"
    by (rule tendsto_eq_intros refl tendsto_const w0 | simp)+
  have one: "(\<lambda>m. 1 + inverse (of_nat m) :: complex) \<longlonglongrightarrow> 1"
    using tendsto_add [OF tendsto_const lim_inverse_n, of "1::complex"] by simp
  have den: "(\<lambda>m. (1 + inverse (of_nat m)) * z * ?Q m) \<longlonglongrightarrow> z"
    using tendsto_mult [OF tendsto_mult [OF one tendsto_const [of z]] Q] by simp
  have lim: "(\<lambda>m. (exp (z + ?w m) - 1) / ((1 + inverse (of_nat m)) * z * ?Q m)) \<longlonglongrightarrow> (exp z - 1) / z"
    by (rule tendsto_divide [OF num den assms])
  have Qne: "eventually (\<lambda>m. ?Q m \<noteq> 0) sequentially"
    by (rule tendsto_imp_eventually_ne [OF Q]) simp
  have ev: "eventually (\<lambda>m. (exp (z + ?w m) - 1) / ((1 + inverse (of_nat m)) * z * ?Q m)
              = (\<Sum>i<Suc m. exp (?w m) ^ i) / of_nat (Suc m)) sequentially"
    using Qne eventually_gt_at_top [of "0::nat"]
  proof eventually_elim
    case (elim m)
    then have m: "0 < m" and r: "exp (?w m) \<noteq> 1" by auto
    have pw: "exp (?w m) ^ Suc m = exp (z + ?w m)"
    proof -
      have "exp (?w m) ^ Suc m = exp (of_nat (Suc m) * ?w m)" by (simp only: exp_of_nat_mult)
      also have "of_nat (Suc m) * ?w m = z + ?w m" using m by (simp add: field_simps)
      finally show ?thesis .
    qed
    have dn: "(1 + inverse (of_nat m)) * z * ?Q m = of_nat (Suc m) * (exp (?w m) - 1)"
      using m assms by (simp add: field_simps)
    have "(\<Sum>i<Suc m. exp (?w m) ^ i) = (exp (?w m) ^ Suc m - 1) / (exp (?w m) - 1)"
      using r by (rule geometric_sum)
    then show ?case using r m by (simp only: pw dn) (simp add: field_simps)
  qed
  from Lim_transform_eventually [OF lim ev] show ?thesis .
qed

lemma cmod_exp_minus_one:
  fixes a phi :: real
  shows "exp (- (2 * a)) * (cmod (exp (Complex a (- phi)) - 1))\<^sup>2
           = 1 + exp (- (2 * a)) - 2 * exp (- a) * cos phi"
proof -
  define E where "E = exp a"
  have E: "0 < E" by (simp add: E_def)
  have sq: "(E * c - 1)\<^sup>2 + (E * s)\<^sup>2 = E\<^sup>2 * (c\<^sup>2 + s\<^sup>2) - 2 * E * c + 1" for c s :: real
    by (simp add: power2_eq_square algebra_simps)
  have e1: "exp (- a) = 1 / E" by (simp add: E_def exp_minus inverse_eq_divide)
  have e2: "exp (- (2 * a)) = 1 / E\<^sup>2"
    by (simp add: E_def exp_minus inverse_eq_divide exp_double)
  have "(cmod (exp (Complex a (- phi)) - 1))\<^sup>2 = (E * cos phi - 1)\<^sup>2 + (E * sin phi)\<^sup>2"
    by (simp add: cmod_power2 Re_exp Im_exp E_def)
  also have "\<dots> = E\<^sup>2 * ((cos phi)\<^sup>2 + (sin phi)\<^sup>2) - 2 * E * cos phi + 1"
    by (rule sq)
  also have "\<dots> = E\<^sup>2 - 2 * E * cos phi + 1" by simp
  finally have fin: "(cmod (exp (Complex a (- phi)) - 1))\<^sup>2 = E\<^sup>2 - 2 * E * cos phi + 1" .
  have "exp (- (2 * a)) * (cmod (exp (Complex a (- phi)) - 1))\<^sup>2
          = 1 / E\<^sup>2 * (E\<^sup>2 - 2 * E * cos phi + 1)"
    by (simp only: e2 fin)
  also have "\<dots> = 1 + 1 / E\<^sup>2 - 2 * (1 / E) * cos phi"
    using E by (simp add: field_simps power2_eq_square)
  also have "\<dots> = 1 + exp (- (2 * a)) - 2 * exp (- a) * cos phi"
    by (simp only: e1 e2)
  finally show ?thesis .
qed

lemma sample_complex:
  fixes b a phi :: real and N i :: nat
  assumes "0 < N"
  shows "Complex (b * exp (a * (real i / real N - 1)) * cos (- (real i / real N * phi)))
                 (b * exp (a * (real i / real N - 1)) * sin (- (real i / real N * phi)))
         = of_real (b * exp (- a)) * exp (Complex a (- phi) / of_nat N) ^ i"
proof -
  let ?w = "of_nat i * (Complex a (- phi) / of_nat N)"
  have p: "exp (Complex a (- phi) / of_nat N) ^ i = exp ?w"
    by (simp only: exp_of_nat_mult)
  have re: "Re ?w = a * (real i / real N)" 
    by (simp add: Re_divide_of_nat)
  have im: "Im ?w = - (real i / real N * phi)"
    by (simp add: Im_divide_of_nat)
  have ex: "exp (a * (real i / real N - 1)) = exp (- a) * exp (a * (real i / real N))"
    by (simp add: exp_add [symmetric] algebra_simps)
  show ?thesis
    unfolding p
    by (rule complex_eqI) (simp_all add: Re_exp Im_exp re im ex)
qed


subsection \<open>A constant profile\<close>

lemma uniform_profile_value:
  fixes b ma Ea Lcoh :: real
    and fBufferGas :: "TRestAxionBufferGas option" and k :: REST_Physics
  assumes Ea: "Ea \<noteq> 0" and n: "2 \<le> n" and L: "0 < Lcoh"
  defines "GL \<equiv> Gamma_of fBufferGas Ea * (Lcoh / 1000) * 100"
  defines "phi \<equiv> (ma * ma - photonMass_of fBufferGas Ea * photonMass_of fBufferGas Ea) / 2 / Ea / 1000
                    * (Lcoh / 1000 * PhMeterIneV k)"
  shows "GammaTransmissionProbability_vec k fBufferGas Ea (replicate n b) ma Lcoh =
     Inr (BLHalfSquared k b Lcoh *
          (exp (- GL) *
           (cmod ((\<Sum>i<n. exp (Complex (GL / 2) (- phi) / of_nat (n - 1)) ^ i) / of_nat n))\<^sup>2))"
proof -
  define q where "q = (ma * ma - photonMass_of fBufferGas Ea * photonMass_of fBufferGas Ea) / 2 / Ea / 1000"
  define Lm where "Lm = Lcoh / 1000"
  define tm where "tm = lightSpeed k / naturalElectron k * (1 / 10 ^ 9)"
  define r where "r = exp (Complex (GL / 2) (- phi) / of_nat (n - 1))"
  define Sx where "Sx = (\<Sum>i<n. b * exp ((GL / 2) * (real i / real (n - 1) - 1))
                               * cos (- (real i / real (n - 1) * phi)))"
  define Sy where "Sy = (\<Sum>i<n. b * exp ((GL / 2) * (real i / real (n - 1) - 1))
                               * sin (- (real i / real (n - 1) * phi)))"
  have N: "0 < n - 1" using n by simp
  have phi: "phi = q * (Lm * PhMeterIneV k)" by (simp only: phi_def q_def Lm_def)
  have arg: "- Lm * PhMeterIneV k * (real i / real (n - 1)) * q = - (real i / real (n - 1) * phi)" for i
  proof -
    have g: "- A * P * t * Q = - (t * (Q * (A * P)))" for A P t Q :: real by simp
    show ?thesis unfolding phi by (rule g)
  qed
  have sx: "(\<Sum>i<n. replicate n b ! i * exp ((GL / 2) * (real i / real (n - 1) - 1))
                  * cos (- Lm * PhMeterIneV k * (real i / real (n - 1)) * q)) = Sx"
    unfolding Sx_def
  proof (rule sum.cong [OF refl])
    fix i assume "i \<in> {..<n}"
    then have "replicate n b ! i = b" by simp
    then show "replicate n b ! i * exp ((GL / 2) * (real i / real (n - 1) - 1))
                  * cos (- Lm * PhMeterIneV k * (real i / real (n - 1)) * q)
             = b * exp ((GL / 2) * (real i / real (n - 1) - 1)) * cos (- (real i / real (n - 1) * phi))"
      by (simp only: arg)
  qed
  have sy: "(\<Sum>i<n. replicate n b ! i * exp ((GL / 2) * (real i / real (n - 1) - 1))
                  * sin (- Lm * PhMeterIneV k * (real i / real (n - 1)) * q)) = Sy"
    unfolding Sy_def
  proof (rule sum.cong [OF refl])
    fix i assume "i \<in> {..<n}"
    then have "replicate n b ! i = b" by simp
    then show "replicate n b ! i * exp ((GL / 2) * (real i / real (n - 1) - 1))
                  * sin (- Lm * PhMeterIneV k * (real i / real (n - 1)) * q)
             = b * exp ((GL / 2) * (real i / real (n - 1) - 1)) * sin (- (real i / real (n - 1) * phi))"
      by (simp only: arg)
  qed
  have val: "GammaTransmissionProbability_vec k fBufferGas Ea (replicate n b) ma Lcoh =
      Inr (tm / 2 * (tm / 2) * (1 / 10 ^ 20) * ((Sx * Lm / real n)\<^sup>2 + (Sy * Lm / real n)\<^sup>2))"
  proof -
    have len: "2 \<le> length (replicate n b)" using n by simp
    have GLm: "Gamma_of fBufferGas Ea * Lm * 100 = GL" by (simp only: GL_def Lm_def)
    show ?thesis
      using GammaTransmissionProbability_vec_value [OF Ea len L, of k fBufferGas ma]
      by (simp only: length_replicate Lm_def [symmetric] q_def [symmetric] tm_def [symmetric]
            GLm sx sy)
  qed
  have "Complex Sx Sy = (\<Sum>i<n. Complex (b * exp ((GL / 2) * (real i / real (n - 1) - 1))
                               * cos (- (real i / real (n - 1) * phi)))
                            (b * exp ((GL / 2) * (real i / real (n - 1) - 1))
                               * sin (- (real i / real (n - 1) * phi))))"
    by (rule complex_eqI) (simp_all add: Sx_def Sy_def Re_sum Im_sum)
  also have "\<dots> = (\<Sum>i<n. of_real (b * exp (- (GL / 2))) * r ^ i)"
    unfolding r_def by (rule sum.cong [OF refl]) (rule sample_complex [OF N])
  also have "\<dots> = of_real (b * exp (- (GL / 2))) * (\<Sum>i<n. r ^ i)"
    by (simp only: sum_distrib_left)
  finally have T: "Complex Sx Sy = of_real (b * exp (- (GL / 2))) * (\<Sum>i<n. r ^ i)" .
  have "Sx\<^sup>2 + Sy\<^sup>2 = (cmod (Complex Sx Sy))\<^sup>2" by (simp add: cmod_power2)
  also have "\<dots> = (b * exp (- (GL / 2)))\<^sup>2 * (cmod (\<Sum>i<n. r ^ i))\<^sup>2"
    by (simp only: T norm_mult norm_of_real power_mult_distrib power2_abs)
  also have "(b * exp (- (GL / 2)))\<^sup>2 = b\<^sup>2 * exp (- GL)"
    by (simp add: power_mult_distrib exp_double [symmetric])
  finally have S: "Sx\<^sup>2 + Sy\<^sup>2 = b\<^sup>2 * exp (- GL) * (cmod (\<Sum>i<n. r ^ i))\<^sup>2" .
  have "tm / 2 * (tm / 2) * (1 / 10 ^ 20) * ((Sx * Lm / real n)\<^sup>2 + (Sy * Lm / real n)\<^sup>2)
          = tm / 2 * (tm / 2) * (1 / 10 ^ 20) * (Lm / real n)\<^sup>2 * (Sx\<^sup>2 + Sy\<^sup>2)"
  proof -
    have sq: "(S * l / m)\<^sup>2 = (l / m)\<^sup>2 * S\<^sup>2" for S l m :: real
      by (simp add: power_divide power_mult_distrib mult.commute)
    have "c * ((x * l / m)\<^sup>2 + (y * l / m)\<^sup>2) = c * (l / m)\<^sup>2 * (x\<^sup>2 + y\<^sup>2)"
      for c x y l m :: real
      by (simp only: sq distrib_left mult.assoc)
    then show ?thesis .
  qed
  also have "\<dots> = tm / 2 * (tm / 2) * (1 / 10 ^ 20) * (Lm / real n)\<^sup>2
                    * (b\<^sup>2 * exp (- GL) * (cmod (\<Sum>i<n. r ^ i))\<^sup>2)"
    by (simp only: S)
  also have "\<dots> = BLHalfSquared k b Lcoh * (exp (- GL) * (cmod ((\<Sum>i<n. r ^ i) / of_nat n))\<^sup>2)"
  proof -
    have B: "BLHalfSquared k b Lcoh = tm / 2 * (tm / 2) * (1 / 10 ^ 20) * (Lm\<^sup>2 * b\<^sup>2)"
      by (simp add: BLHalfSquared_def Let_def tm_def Lm_def power2_eq_square)
    have c: "cmod ((\<Sum>i<n. r ^ i) / of_nat n) = cmod (\<Sum>i<n. r ^ i) / real n"
      by (simp add: norm_divide)
    have g: "F * (l / m)\<^sup>2 * (b2 * e * c2\<^sup>2) = F * (l\<^sup>2 * b2) * (e * (c2 / m)\<^sup>2)"
      for F l m b2 e c2 :: real
      by (simp add: power_divide)
    show ?thesis by (simp only: B c g)
  qed
  finally show ?thesis using val by (simp only: r_def)
qed


subsection \<open>Two samples in an absorbing gas\<close>

lemma scalar_absorbing_gas:
  "GammaTransmissionProbability REST_Physics_values (Some absorbing_gas) 1 2 1 10
     = Inr (BLHalfSquared REST_Physics_values 2 10 * ((1 + exp (- 4) - 2 * exp (- 2)) / 4))"
  by (simp add: GammaTransmissionProbability_def Let_def photonMass_of_def Gamma_of_def absorbing_gas_def)

lemma two_samples_absorbing_gas:
  "GammaTransmissionProbability_vec REST_Physics_values (Some absorbing_gas) 1 [2, 2] 1 10
     = Inr (BLHalfSquared REST_Physics_values 2 10 * ((1 + exp (- 2)) / 2)\<^sup>2)"
proof -
  have s: "(\<Sum>i<2. f i) = f 0 + f (Suc 0)" for f :: "nat \<Rightarrow> real"
    by (simp add: numeral_2_eq_2)
  have "GammaTransmissionProbability_vec REST_Physics_values (Some absorbing_gas) 1 [2, 2] 1 10
     = Inr (lightSpeed REST_Physics_values / naturalElectron REST_Physics_values * (1 / 10 ^ 9) / 2 *
          (lightSpeed REST_Physics_values / naturalElectron REST_Physics_values * (1 / 10 ^ 9) / 2) * (1 / 10 ^ 20) *
          (((2 * exp (- 2) + 2) * (1 / 100) / 2)\<^sup>2))"
    using GammaTransmissionProbability_vec_value [of 1 "[2, 2]" 10 REST_Physics_values "Some absorbing_gas" 1]
    by (simp add: s photonMass_of_def Gamma_of_def absorbing_gas_def)
  also have "lightSpeed REST_Physics_values / naturalElectron REST_Physics_values * (1 / 10 ^ 9) / 2 *
          (lightSpeed REST_Physics_values / naturalElectron REST_Physics_values * (1 / 10 ^ 9) / 2) * (1 / 10 ^ 20) *
          (((2 * exp (- 2) + 2) * (1 / 100) / 2)\<^sup>2)
        = BLHalfSquared REST_Physics_values 2 10 * ((1 + exp (- 2)) / 2)\<^sup>2"
  proof -
    have g: "T / 2 * (T / 2) * c * (((2 * e + 2) * (1 / 100) / 2)\<^sup>2)
               = 10 / 1000 * 2 * T / 2 * (10 / 1000 * 2 * T / 2) * c * ((1 + e) / 2)\<^sup>2"
      for T c e :: real
      by (simp add: power2_eq_square field_simps)
    show ?thesis unfolding BLHalfSquared_def Let_def by (rule g)
  qed
  finally show ?thesis .
qed

lemma exp_minus_two_bounds: "1 / 9 \<le> exp (- 2 :: real)" "exp (- 2 :: real) < 1"
proof -
  have "exp (2 :: real) = exp 1 * exp 1" by (simp add: exp_add [symmetric])
  also have "\<dots> \<le> 3 * 3" by (intro mult_mono exp_le) simp_all
  finally have "exp (2 :: real) \<le> 9" by simp
  then have "1 / 9 \<le> 1 / exp (2 :: real)" by (simp add: field_simps)
  then show "1 / 9 \<le> exp (- 2 :: real)" by (simp add: exp_minus inverse_eq_divide)
  show "exp (- 2 :: real) < 1" by simp
qed

lemma far_apart:
  fixes X e :: real
  assumes "0 < X" and "1 / 9 \<le> e" and "e < 1"
  shows "\<not> \<bar>X * ((1 + e) / 2)\<^sup>2 - X * ((1 + e\<^sup>2 - 2 * e) / 4)\<bar>
             \<le> 1 / 10 ^ 6 * \<bar>X * ((1 + e\<^sup>2 - 2 * e) / 4)\<bar>"
proof -
  have d: "X * ((1 + e) / 2)\<^sup>2 - X * ((1 + e\<^sup>2 - 2 * e) / 4) = X * e"
    by (simp add: power2_eq_square field_simps)
  have a: "(1 + e\<^sup>2 - 2 * e) / 4 = (1 - e)\<^sup>2 / 4" by (simp add: power2_diff)
  have "(1 - e)\<^sup>2 \<le> 1" using assms by (simp add: power_le_one)
  then have le: "X * ((1 - e)\<^sup>2 / 4) \<le> X * (1 / 4)" using assms(1) by (intro mult_left_mono) simp_all
  have nn: "0 \<le> X * ((1 - e)\<^sup>2 / 4)" using assms(1) by simp
  have "1 / 10 ^ 6 * (X * (1 / 4)) < X * (1 / 9)" using assms(1) by simp
  also have "\<dots> \<le> X * e" using assms(1,2) by (intro mult_left_mono) simp_all
  finally have lt: "1 / 10 ^ 6 * (X * ((1 - e)\<^sup>2 / 4)) < X * e" using le by simp
  have "0 < X * e" using assms by simp
  then have l: "\<bar>X * ((1 + e) / 2)\<^sup>2 - X * ((1 + e\<^sup>2 - 2 * e) / 4)\<bar> = X * e"
    by (simp only: d abs_of_pos)
  have r: "\<bar>X * ((1 + e\<^sup>2 - 2 * e) / 4)\<bar> = X * ((1 - e)\<^sup>2 / 4)"
    using nn by (simp only: a abs_of_nonneg)
  from lt show ?thesis by (simp only: l r not_le)
qed

lemma BLHalfSquared_values_pos: "0 < BLHalfSquared REST_Physics_values 2 10"
  by (simp add: BLHalfSquared_def REST_Physics_values_def Let_def)

subsection \<open>The two overloads on a constant profile\<close>

lemma uniform_profile_converges:
  fixes b ma Ea Lcoh pA :: real
    and fBufferGas :: "TRestAxionBufferGas option" and k :: REST_Physics
  assumes Ea: "0 < Ea" and L: "0 < Lcoh"
    and A: "GammaTransmissionProbability k fBufferGas Ea b ma Lcoh = Inr pA"
    and vac: "ma = 0 \<and> photonMass_of fBufferGas Ea = 0 \<longrightarrow> Gamma_of fBufferGas Ea = 0"
  defines "GL \<equiv> Gamma_of fBufferGas Ea * (Lcoh / 1000) * 100"
  defines "phi \<equiv> (ma * ma - photonMass_of fBufferGas Ea * photonMass_of fBufferGas Ea) / 2 / Ea / 1000
                    * (Lcoh / 1000 * PhMeterIneV k)"
  shows "(\<lambda>n. BLHalfSquared k b Lcoh *
               (exp (- GL) *
                (cmod ((\<Sum>i<n. exp (Complex (GL / 2) (- phi) / of_nat (n - 1)) ^ i) / of_nat n))\<^sup>2))
         \<longlonglongrightarrow> pA"
proof -
  define z where "z = Complex (GL / 2) (- phi)"
  define H where "H m = (\<Sum>i<Suc m. exp (z / of_nat m) ^ i) / of_nat (Suc m)" for m
  define p where "p n = BLHalfSquared k b Lcoh *
               (exp (- GL) * (cmod ((\<Sum>i<n. exp (z / of_nat (n - 1)) ^ i) / of_nat n))\<^sup>2)" for n
  have pS: "p (Suc m) = BLHalfSquared k b Lcoh * (exp (- GL) * (cmod (H m))\<^sup>2)" for m
    unfolding p_def H_def by (simp only: diff_Suc_1)
  have lim: "p \<longlonglongrightarrow> pA"
  proof (cases "z = 0")
    case True
    then have GL0: "GL = 0" and phi0: "phi = 0" by (simp_all add: z_def complex_eq_iff)
    have "H m = 1" for m by (simp add: H_def True del: of_nat_Suc)
    then have p: "p (Suc m) = BLHalfSquared k b Lcoh" for m by (simp add: pS GL0)
    have M: "phi * phi + GL * GL / 4 = 0" by (simp add: GL0 phi0)
    from A Ea M have "pA = BLHalfSquared k b Lcoh"
      unfolding GammaTransmissionProbability_def Let_def GL_def phi_def
      by (auto split: if_splits)
    with p have "(\<lambda>m. p (Suc m)) \<longlonglongrightarrow> pA" by simp
    then show ?thesis by (rule LIMSEQ_imp_Suc)
  next
    case False
    have ns: "\<not> (ma = 0 \<and> photonMass_of fBufferGas Ea = 0)"
    proof
      assume s: "ma = 0 \<and> photonMass_of fBufferGas Ea = 0"
      with vac have "GL = 0" "phi = 0" by (simp_all add: GL_def phi_def)
      with False show False by (simp add: z_def complex_eq_iff zero_complex.code)
    qed
    have Mne: "phi * phi + GL * GL / 4 \<noteq> 0"
    proof -
      have "phi * phi + GL * GL / 4 = phi\<^sup>2 + (GL / 2)\<^sup>2" by (simp add: power2_eq_square)
      moreover from False have "phi \<noteq> 0 \<or> GL / 2 \<noteq> 0" by (auto simp: z_def complex_eq_iff)
      ultimately show ?thesis by (simp add: sum_power2_eq_zero_iff)
    qed
    from A ns Ea Mne have pA: "pA = 1 / (phi * phi + GL * GL / 4) * BLHalfSquared k b Lcoh *
                        (1 + exp (- GL) - 2 * exp (- GL / 2) * cos phi)"
      unfolding GammaTransmissionProbability_def Let_def GL_def phi_def
      by (auto split: if_splits)
    have "H \<longlonglongrightarrow> (exp z - 1) / z"
      unfolding H_def by (rule geometric_mean_limit [OF False])
    then have "(\<lambda>m. BLHalfSquared k b Lcoh * (exp (- GL) * (cmod (H m))\<^sup>2))
                 \<longlonglongrightarrow> BLHalfSquared k b Lcoh * (exp (- GL) * (cmod ((exp z - 1) / z))\<^sup>2)"
      by (intro tendsto_intros)
    then have "(\<lambda>m. p (Suc m)) \<longlonglongrightarrow> BLHalfSquared k b Lcoh * (exp (- GL) * (cmod ((exp z - 1) / z))\<^sup>2)"
      by (simp only: pS)
    then have pl: "p \<longlonglongrightarrow> BLHalfSquared k b Lcoh * (exp (- GL) * (cmod ((exp z - 1) / z))\<^sup>2)"
      by (rule LIMSEQ_imp_Suc)
    have cz: "(cmod z)\<^sup>2 = phi * phi + GL * GL / 4"
    proof -
      have "(cmod z)\<^sup>2 = (GL / 2)\<^sup>2 + (- phi)\<^sup>2" by (simp only: z_def cmod_power2 complex.sel)
      also have "\<dots> = phi * phi + GL * GL / 4" by (simp add: power2_eq_square)
      finally show ?thesis .
    qed
    have "exp (- GL) * (cmod ((exp z - 1) / z))\<^sup>2
            = exp (- (2 * (GL / 2))) * (cmod (exp (Complex (GL / 2) (- phi)) - 1))\<^sup>2 / (cmod z)\<^sup>2"
      by (simp add: norm_divide power_divide z_def)
    also have "\<dots> = (1 + exp (- (2 * (GL / 2))) - 2 * exp (- (GL / 2)) * cos phi) / (cmod z)\<^sup>2"
      by (simp only: cmod_exp_minus_one)
    also have "\<dots> = 1 / (phi * phi + GL * GL / 4) * (1 + exp (- GL) - 2 * exp (- GL / 2) * cos phi)"
      by (simp add: cz)
    finally have "BLHalfSquared k b Lcoh * (exp (- GL) * (cmod ((exp z - 1) / z))\<^sup>2) = pA"
      by (simp add: pA)
    with pl show ?thesis by simp
  qed
  then show ?thesis unfolding p_def z_def .
qed

lemma uniform_profile_exact:
  fixes GL phi :: real
  assumes "1 \<le> n" and "GL = 0" and "phi = 0"
  shows "exp (- GL) * (cmod ((\<Sum>i<n. exp (Complex (GL / 2) (- phi) / of_nat (n - 1)) ^ i) / of_nat n))\<^sup>2 = 1"
proof -
  from assms(2,3) have z: "Complex (GL / 2) (- phi) = 0" by (simp add: complex_eq_iff)
  have e: "exp (Complex (GL / 2) (- phi) / of_nat (n - 1)) = 1"
    unfolding z by simp
  have s: "(\<Sum>i<n. exp (Complex (GL / 2) (- phi) / of_nat (n - 1)) ^ i) = of_nat n"
    unfolding e by simp
  from assms(1) have "cmod (of_nat n / of_nat n) = 1" by simp
  with assms(2) show ?thesis unfolding s by simp
qed


lemma scalar_absorbing_gas_off_resonance:
  "GammaTransmissionProbability REST_Physics_values (Some absorbing_gas) 1 2 2 10
     = Inr (1 / ((3 / 2000 * (10 / 1000 * PhMeterIneV REST_Physics_values))\<^sup>2 + 4)
            * (BL REST_Physics_values 2 10 / 2)\<^sup>2
            * (1 + exp (- 4) - 2 * exp (- 2) * cos (3 / 2000 * (10 / 1000 * PhMeterIneV REST_Physics_values))))"
  by (simp add: GammaTransmissionProbability_def Let_def photonMass_of_def Gamma_of_def
        absorbing_gas_def BLHalfSquared_eq_BL power2_eq_square REST_Physics_values_def)

text \<open>
  Claim C1, as the code has it. Let \<open>m\<gamma>\<close> and \<open>\<Gamma>\<close> be the photon mass and the
  absorption of the medium at \<open>Ea\<close> (0 without a medium), \<open>\<phi>\<close> and \<open>\<Gamma>L\<close> the phase
  and the absorption over the length as in the scalar formula. For \<open>Ea > 0\<close>,
  \<open>Lcoh > 0\<close> and a constant profile of \<open>n \<ge> 2\<close> samples \<open>b\<close>:

  \<^item> the profile overload returns
    \<open>p n = (BL/2)\<^sup>2 \<cdot> e\<^sup>-\<^sup>\<Gamma>\<^sup>L \<cdot> \<bar>(1/n) \<Sum>\<^sub>i\<^sub><\<^sub>n exp((\<Gamma>L/2 - i\<phi>) / (n-1))\<^sup>i\<bar>\<^sup>2\<close>: the histogram integral
    is the mean of the \<open>n\<close> attenuated and rotated samples times the length, a Riemann
    sum of the integral that the scalar formula evaluates in closed form;
  \<^item> where \<open>\<phi> = \<Gamma>L = 0\<close> and the scalar overload has a value, \<open>p n\<close> is that value for
    every \<open>n \<ge> 2\<close>;
  \<^item> where the scalar overload has a value, and the absorption is zero if both masses
    are zero (there the scalar overload returns \<open>(BL/2)\<^sup>2\<close> without looking at the
    absorption), \<open>p n\<close> converges to that value as \<open>n\<close> grows.

  No bound on the distance holds for a fixed \<open>n\<close> in general.
\<close>

theorem uniform_profile_limit:
  fixes b ma Ea Lcoh mgamma Gamma phi GammaL :: real
    and p :: "nat \<Rightarrow> real"
    and fBufferGas :: "TRestAxionBufferGas option" and k :: REST_Physics
  assumes Ea: "0 < Ea" and L: "0 < Lcoh"
    and m: "mgamma = (case fBufferGas of None \<Rightarrow> 0 | Some gas \<Rightarrow> GetPhotonMass gas Ea)"
    and G: "Gamma = (case fBufferGas of None \<Rightarrow> 0 | Some gas \<Rightarrow> GetPhotonAbsorptionLength gas Ea)"
    and phi: "phi = (ma\<^sup>2 - mgamma\<^sup>2) / (2 * (1000 * Ea)) * (Lcoh / 1000 * PhMeterIneV k)"
    and GL: "GammaL = Gamma * (Lcoh / 10)"
    and p: "p = (\<lambda>n. (BL k b Lcoh / 2)\<^sup>2 * exp (- GammaL) *
                     (cmod ((\<Sum>i<n. exp (Complex (GammaL / 2) (- phi) / of_nat (n - 1)) ^ i) / of_nat n))\<^sup>2)"
  shows "(\<forall>n\<ge>2. GammaTransmissionProbability_vec k fBufferGas Ea (replicate n b) ma Lcoh = Inr (p n))
       \<and> (\<forall>pA. GammaTransmissionProbability k fBufferGas Ea b ma Lcoh = Inr pA \<and> phi = 0 \<and> GammaL = 0
               \<longrightarrow> (\<forall>n\<ge>2. p n = pA))
       \<and> (\<forall>pA. GammaTransmissionProbability k fBufferGas Ea b ma Lcoh = Inr pA
                 \<and> (ma = 0 \<and> mgamma = 0 \<longrightarrow> Gamma = 0)
               \<longrightarrow> p \<longlonglongrightarrow> pA)"
proof -
  from m have m': "photonMass_of fBufferGas Ea = mgamma" by (simp add: photonMass_of_def)
  from G have G': "Gamma_of fBufferGas Ea = Gamma" by (simp add: Gamma_of_def)
  have GLeq: "Gamma_of fBufferGas Ea * (Lcoh / 1000) * 100 = GammaL"
    unfolding G' GL by simp
  have phieq: "(ma * ma - photonMass_of fBufferGas Ea * photonMass_of fBufferGas Ea) / 2 / Ea / 1000
                 * (Lcoh / 1000 * PhMeterIneV k) = phi"
    unfolding m' phi by (simp add: power2_eq_square)
  have peq: "p = (\<lambda>n. BLHalfSquared k b Lcoh *
               (exp (- GammaL) *
                (cmod ((\<Sum>i<n. exp (Complex (GammaL / 2) (- phi) / of_nat (n - 1)) ^ i) / of_nat n))\<^sup>2))"
    unfolding p BLHalfSquared_eq_BL by (simp only: mult.assoc)
  have val: "GammaTransmissionProbability_vec k fBufferGas Ea (replicate n b) ma Lcoh = Inr (p n)"
    if "2 \<le> n" for n
  proof -
    from Ea have "Ea \<noteq> 0" by simp
    from uniform_profile_value [OF this that L, of k fBufferGas b ma]
    show ?thesis unfolding GLeq phieq peq .
  qed
  have exact: "p n = pA"
    if A: "GammaTransmissionProbability k fBufferGas Ea b ma Lcoh = Inr pA"
      and z: "phi = 0" "GammaL = 0" and n: "2 \<le> n" for pA n
  proof -
    have M: "phi * phi + GammaL * GammaL / 4 = 0" by (simp add: z)
    from A Ea M have "pA = BLHalfSquared k b Lcoh"
      unfolding GammaTransmissionProbability_def Let_def GLeq phieq
      by (auto split: if_splits)
    moreover from n have "1 \<le> n" by simp
    from uniform_profile_exact [OF this z(2,1)] have "p n = BLHalfSquared k b Lcoh"
      unfolding peq by simp
    ultimately show ?thesis by simp
  qed
  have lim: "p \<longlonglongrightarrow> pA"
    if A: "GammaTransmissionProbability k fBufferGas Ea b ma Lcoh = Inr pA"
      and vac: "ma = 0 \<and> mgamma = 0 \<longrightarrow> Gamma = 0" for pA
  proof -
    from vac have "ma = 0 \<and> photonMass_of fBufferGas Ea = 0 \<longrightarrow> Gamma_of fBufferGas Ea = 0"
      unfolding m' G' .
    from uniform_profile_converges [OF Ea L A this] show ?thesis
      unfolding GLeq phieq peq .
  qed
  from val exact lim show ?thesis by blast
qed

theorem uniform_profile_limit_witness:
  "(\<forall>n. GammaTransmissionProbability_vec REST_Physics_values None (42 / 10) (replicate (n + 2) 2) 0 4000
          = Inr (BLHalfSquared REST_Physics_values 2 4000))
   \<and> (\<forall>n. GammaTransmissionProbability_vec REST_Physics_values (Some absorbing_gas) 1
            (replicate (n + 2) 2) 2 10
          = Inr ((BL REST_Physics_values 2 10 / 2)\<^sup>2 * exp (- 4) *
                 (cmod ((\<Sum>i<n + 2. exp (Complex (4 / 2) (- (3 / 2000 * (10 / 1000 * PhMeterIneV REST_Physics_values)))
                                          / of_nat (n + 2 - 1)) ^ i) / of_nat (n + 2)))\<^sup>2))
   \<and> (\<lambda>n. (BL REST_Physics_values 2 10 / 2)\<^sup>2 * exp (- 4) *
            (cmod ((\<Sum>i<n. exp (Complex (4 / 2) (- (3 / 2000 * (10 / 1000 * PhMeterIneV REST_Physics_values)))
                                     / of_nat (n - 1)) ^ i) / of_nat n))\<^sup>2)
       \<longlonglongrightarrow> 1 / ((3 / 2000 * (10 / 1000 * PhMeterIneV REST_Physics_values))\<^sup>2 + 4)
            * (BL REST_Physics_values 2 10 / 2)\<^sup>2
            * (1 + exp (- 4) - 2 * exp (- 2) * cos (3 / 2000 * (10 / 1000 * PhMeterIneV REST_Physics_values)))"
proof -
  have A0: "GammaTransmissionProbability REST_Physics_values None (42 / 10) 2 0 4000
              = Inr (BLHalfSquared REST_Physics_values 2 4000)"
    by (simp add: GammaTransmissionProbability_def photonMass_of_def)
  have v1: "(0 :: real) < 42 / 10" and v2: "(0 :: real) < 4000"
    and v3: "(0 :: real) = (case None of None \<Rightarrow> 0 | Some gas \<Rightarrow> GetPhotonMass gas (42 / 10))"
    and v4: "(0 :: real) = (case None of None \<Rightarrow> 0 | Some gas \<Rightarrow> GetPhotonAbsorptionLength gas (42 / 10))"
    and v5: "(0 :: real) = (0\<^sup>2 - 0\<^sup>2) / (2 * (1000 * (42 / 10))) * (4000 / 1000 * PhMeterIneV REST_Physics_values)"
    and v6: "(0 :: real) = 0 * (4000 / 10)"
    by simp_all
  note v = uniform_profile_limit
    [where Ea = "42 / 10" and Lcoh = 4000 and mgamma = 0 and fBufferGas = None and Gamma = 0
       and phi = 0 and ma = 0 and k = REST_Physics_values and GammaL = 0 and b = 2,
     OF v1 v2 v3 v4 v5 v6 refl]
  note va = v [THEN conjunct1, rule_format, OF le_add2]
  note vb = v [THEN conjunct2, THEN conjunct1, rule_format, OF conjI [OF A0 conjI [OF refl refl]] le_add2]
  have 1: "GammaTransmissionProbability_vec REST_Physics_values None (42 / 10) (replicate (n + 2) 2) 0 4000
          = Inr (BLHalfSquared REST_Physics_values 2 4000)" for n
    using va [of n] vb [of n] by (simp only:)
  have g1: "(0 :: real) < 1" and g2: "(0 :: real) < 10"
    and g3: "(1 :: real) = (case Some absorbing_gas of None \<Rightarrow> 0 | Some gas \<Rightarrow> GetPhotonMass gas 1)"
    and g4: "(4 :: real) = (case Some absorbing_gas of None \<Rightarrow> 0 | Some gas \<Rightarrow> GetPhotonAbsorptionLength gas 1)"
    and g5: "3 / 2000 * (10 / 1000 * PhMeterIneV REST_Physics_values)
               = (2\<^sup>2 - 1\<^sup>2) / (2 * (1000 * 1)) * (10 / 1000 * PhMeterIneV REST_Physics_values)"
    and g6: "(4 :: real) = 4 * (10 / 10)"
    by (simp_all add: absorbing_gas_def)
  note g = uniform_profile_limit
    [where Ea = 1 and Lcoh = 10 and mgamma = 1 and fBufferGas = "Some absorbing_gas" and Gamma = 4
       and phi = "3 / 2000 * (10 / 1000 * PhMeterIneV REST_Physics_values)" and ma = 2
       and k = REST_Physics_values and GammaL = 4 and b = 2,
     OF g1 g2 g3 g4 g5 g6 refl]
  have vac: "(2 :: real) = 0 \<and> (1 :: real) = 0 \<longrightarrow> (4 :: real) = 0" by simp
  note ga = g [THEN conjunct1, rule_format, OF le_add2]
  note gc = g [THEN conjunct2, THEN conjunct2, rule_format,
               OF conjI [OF scalar_absorbing_gas_off_resonance vac]]
  from 1 ga gc show ?thesis by (intro conjI allI)
qed


text \<open>
  Claim C1, as stated, fails. In a buffer gas with photon mass 1 eV and absorption 4 per
  cm, for \<open>Ea = 1\<close> keV, \<open>ma = 1\<close> eV, \<open>Lcoh = 10\<close> mm and the constant profile \<open>[2, 2]\<close>
  (\<open>N = 2\<close> samples of 2 T), the two overloads return \<open>(BL/2)\<^sup>2 (1 - e\<^sup>-\<^sup>2)\<^sup>2 / 4\<close> and
  \<open>(BL/2)\<^sup>2 (1 + e\<^sup>-\<^sup>2)\<^sup>2 / 4\<close>, which are not within \<open>10\<^sup>-\<^sup>6\<close> of each other relative to
  the first.
\<close>

theorem two_samples_differ:
  "GammaTransmissionProbability REST_Physics_values (Some absorbing_gas) 1 2 1 10
     = Inr (BLHalfSquared REST_Physics_values 2 10 * ((1 + exp (- 4) - 2 * exp (- 2)) / 4))
   \<and> GammaTransmissionProbability_vec REST_Physics_values (Some absorbing_gas) 1 [2, 2] 1 10
     = Inr (BLHalfSquared REST_Physics_values 2 10 * ((1 + exp (- 2)) / 2)\<^sup>2)
   \<and> \<not> \<bar>BLHalfSquared REST_Physics_values 2 10 * ((1 + exp (- 2)) / 2)\<^sup>2
          - BLHalfSquared REST_Physics_values 2 10 * ((1 + exp (- 4) - 2 * exp (- 2)) / 4)\<bar>
        \<le> 1 / 10 ^ 6 * \<bar>BLHalfSquared REST_Physics_values 2 10 * ((1 + exp (- 4) - 2 * exp (- 2)) / 4)\<bar>"
proof -
  have e4: "exp (- 4 :: real) = (exp (- 2))\<^sup>2"
    by (simp add: exp_double [symmetric])
  show ?thesis
    using far_apart [OF BLHalfSquared_values_pos exp_minus_two_bounds]
    by (simp only: scalar_absorbing_gas two_samples_absorbing_gas e4 simp_thms)
qed


end
